theory Spec2Isabelle
  imports Complex_Main "HOL-Library.Word"
begin

section \<open>Values of the Python program\<close>

text \<open>
  The worker \<^verbatim>\<open>scripts/kokoro_worker.py\<close> reads JSON lines, synthesises speech with the
  Kokoro engine and answers with one JSON line per request. A Python \<^verbatim>\<open>str\<close> is a
  sequence of Unicode code points, so it is modelled as a list of code points; \<open>S\<close> turns
  an ASCII literal into such a string. A \<^verbatim>\<open>bytes\<close> value is a list of 8-bit words.
\<close>

type_synonym pystr = "nat list"

type_synonym byte = "8 word"

definition S :: "string \<Rightarrow> pystr" where
  "S s = map of_char s"

definition B :: "string \<Rightarrow> byte list" where
  "B s = map of_char s"

text \<open>
  Exceptions are values. Only instances of \<^verbatim>\<open>Exception\<close> are modelled, which is what
  \<^verbatim>\<open>except Exception\<close> at line 140 catches; \<^verbatim>\<open>KeyboardInterrupt\<close> and
  \<^verbatim>\<open>SystemExit\<close> are signals to the process, not results of a request. The second
  component is \<^verbatim>\<open>str(exc)\<close>.
\<close>

datatype exc_class =
    TypeError | ValueError | AttributeError | OverflowError
  | JSONDecodeError | StructError | WaveError | OtherError

datatype py_exc = PyExc exc_class pystr

fun exc_str :: "py_exc \<Rightarrow> pystr" where
  "exc_str (PyExc c m) = m"

fun exc_cls :: "py_exc \<Rightarrow> exc_class" where
  "exc_cls (PyExc c m) = c"

section \<open>The audio encoder: \<^verbatim>\<open>wav_bytes_from_float32_mono\<close>\<close>

subsection \<open>NumPy on float32 samples\<close>

text \<open>
  A finite float32 sample is modelled by the real number it denotes. The product
  \<^verbatim>\<open>a * 32767.0\<close> of a float32 array and a Python float is computed in float32, so the
  exact product is rounded to the nearest float32 (ties to even): \<open>f32_round\<close>. The
  spacing of float32 around \<open>x\<close> is \<open>2 ^ (e - 23)\<close> where \<open>2 ^ e \<le> \<bar>x\<bar> < 2 ^ (e + 1)\<close>,
  and \<open>2 ^ (- 149)\<close> below the smallest normal number; \<open>f32_ulp_from\<close> finds it by
  searching down from \<open>2 ^ 14\<close>, which covers \<open>\<bar>x\<bar> < 2 ^ 15\<close>: all the encoder needs,
  since the samples are clipped to \<open>[-1, 1]\<close> first.
\<close>

definition rne :: "real \<Rightarrow> int" where
  "rne x = (let f = \<lfloor>x\<rfloor>; d = x - of_int f in
     if d < 1 / 2 then f else if 1 / 2 < d then f + 1 else if even f then f else f + 1)"

fun f32_ulp_from :: "nat \<Rightarrow> real \<Rightarrow> real \<Rightarrow> real" where
  "f32_ulp_from 0 b x = b / 2 ^ 23"
| "f32_ulp_from (Suc n) b x =
     (if b \<le> \<bar>x\<bar> then b / 2 ^ 23 else f32_ulp_from n (b / 2) x)"

definition f32_round :: "real \<Rightarrow> real" where
  "f32_round x = (let u = f32_ulp_from 140 (2 ^ 14) x in of_int (rne (x / u)) * u)"

definition f32_mul :: "real \<Rightarrow> real \<Rightarrow> real" where
  "f32_mul x y = f32_round (x * y)"

text \<open>\<^verbatim>\<open>np.clip(a, lo, hi)\<close> is \<^verbatim>\<open>minimum(maximum(a, lo), hi)\<close>, element by element.\<close>

definition np_clip :: "real \<Rightarrow> real \<Rightarrow> real \<Rightarrow> real" where
  "np_clip x lo hi = min (max x lo) hi"

text \<open>
  \<^verbatim>\<open>astype(np.int16)\<close> is the C conversion of a float to a 16-bit integer: the fraction
  is discarded (truncation toward zero). The value is stored in 16 bits.
\<close>

definition c_trunc :: "real \<Rightarrow> int" where
  "c_trunc x = (if 0 \<le> x then \<lfloor>x\<rfloor> else \<lceil>x\<rceil>)"

definition astype_int16 :: "real \<Rightarrow> 16 word" where
  "astype_int16 x = word_of_int (c_trunc x)"

text \<open>\<^verbatim>\<open>tobytes()\<close> of an int16 array: two bytes per sample, low byte first.\<close>

definition tobytes_int16 :: "16 word \<Rightarrow> byte list" where
  "tobytes_int16 w = [ucast w, ucast (drop_bit 8 w)]"

text \<open>Lines 43 and 44 up to \<^verbatim>\<open>astype\<close>: the int16 array.\<close>

definition pcm16 :: "real list \<Rightarrow> 16 word list" where
  "pcm16 a = map (\<lambda>x. astype_int16 (f32_mul x 32767)) (map (\<lambda>x. np_clip x (- 1) 1) a)"

subsection \<open>The \<^verbatim>\<open>wave\<close> module\<close>

text \<open>
  \<^verbatim>\<open>struct.pack('<L', n)\<close> raises \<^verbatim>\<open>struct.error\<close> unless \<open>0 \<le> n < 2 ^ 32\<close>.
  \<open>le_bytes k n\<close> are the \<open>k\<close> little-endian bytes of \<open>n\<close>.
\<close>

fun le_bytes :: "nat \<Rightarrow> nat \<Rightarrow> byte list" where
  "le_bytes 0 n = []"
| "le_bytes (Suc k) n = of_nat n # le_bytes k (n div 256)"

definition fits_L :: "int \<Rightarrow> bool" where
  "fits_L n = (0 \<le> n \<and> n < 2 ^ 32)"

definition struct_error_L :: py_exc where
  "struct_error_L =
     PyExc StructError ([39] @ S ''L'' @ [39] @ S '' format requires 0 <= number <= 4294967295'')"

text \<open>
  What \<^verbatim>\<open>wave.open(buf, "wb")\<close>, \<^verbatim>\<open>setnchannels(1)\<close>, \<^verbatim>\<open>setsampwidth(2)\<close>,
  \<^verbatim>\<open>setframerate(r)\<close>, \<^verbatim>\<open>writeframes(pcm)\<close> and closing leave in the buffer, for
  \<open>pcm\<close> a whole number of 2-byte frames: \<^verbatim>\<open>setframerate\<close> refuses a rate that is not
  positive, and the header is one \<^verbatim>\<open>struct.pack('<L4s4sLHHLLHH4s', ...)\<close> of
  \<open>36 + datalength\<close>, the format tag 1 (PCM), the channels, the frame rate, the byte
  rate \<open>nchannels * framerate * sampwidth\<close>, the block size and the bits per sample,
  followed by \<^verbatim>\<open>struct.pack('<L', datalength)\<close> and the frames.
\<close>

definition wave_write_mono16 :: "int \<Rightarrow> byte list \<Rightarrow> py_exc + byte list" where
  "wave_write_mono16 framerate pcm =
     (if framerate \<le> 0 then Inl (PyExc WaveError (S ''bad frame rate''))
      else
        let datalength = length pcm in
        if fits_L (36 + int datalength) \<and> fits_L framerate \<and> fits_L (1 * framerate * 2)
        then Inr (B ''RIFF'' @ le_bytes 4 (36 + datalength) @ B ''WAVE'' @ B ''fmt ''
                  @ le_bytes 4 16 @ le_bytes 2 1 @ le_bytes 2 1
                  @ le_bytes 4 (nat framerate) @ le_bytes 4 (nat (1 * framerate * 2))
                  @ le_bytes 2 (1 * 2) @ le_bytes 2 (2 * 8) @ B ''data''
                  @ le_bytes 4 datalength @ pcm)
        else Inl struct_error_L)"

subsection \<open>The encoder\<close>

text \<open>
  \<open>audio\<close> is the flat float32 array \<^verbatim>\<open>a\<close> of line 39. Lines 36 to 52.
\<close>

definition wav_bytes_from_float32_mono :: "real list \<Rightarrow> int \<Rightarrow> py_exc + byte list" where
  "wav_bytes_from_float32_mono audio sample_rate =
     (let sample_rate = (if sample_rate \<le> 0 then 24000 else sample_rate);
          pcm = (if length audio = 0 then []
                 else concat (map tobytes_int16 (pcm16 audio)))
      in wave_write_mono16 sample_rate pcm)"

subsection \<open>Reading a container back\<close>

text \<open>
  What a reader of the canonical 44-byte PCM container accepts: the \<^verbatim>\<open>RIFF\<close> and
  \<^verbatim>\<open>WAVE\<close> tags, a 16-byte \<^verbatim>\<open>fmt\<close> chunk of format 1 whose byte rate and block size
  agree with the channels, the frame rate and the bits per sample, and a \<^verbatim>\<open>data\<close>
  chunk that takes the rest of the file in whole frames. It returns the channels, the
  bits per sample, the frame rate and the number of frames.
\<close>

fun le_nat :: "byte list \<Rightarrow> nat" where
  "le_nat [] = 0"
| "le_nat (b # bs) = unat b + 256 * le_nat bs"

definition field :: "byte list \<Rightarrow> nat \<Rightarrow> nat \<Rightarrow> byte list" where
  "field bs off n = take n (drop off bs)"

record wav_info =
  channels :: nat
  bits :: nat
  rate :: nat
  frames :: nat

definition read_wav :: "byte list \<Rightarrow> wav_info option" where
  "read_wav bs =
     (let nch = le_nat (field bs 22 2); r = le_nat (field bs 24 4);
          bps = le_nat (field bs 34 2); blk = le_nat (field bs 32 2);
          n = le_nat (field bs 40 4)
      in if 44 \<le> length bs \<and> field bs 0 4 = B ''RIFF''
            \<and> le_nat (field bs 4 4) + 8 = length bs
            \<and> field bs 8 4 = B ''WAVE'' \<and> field bs 12 4 = B ''fmt ''
            \<and> le_nat (field bs 16 4) = 16 \<and> le_nat (field bs 20 2) = 1
            \<and> 0 < nch \<and> 0 < bps \<and> bps mod 8 = 0 \<and> blk = nch * (bps div 8)
            \<and> le_nat (field bs 28 4) = r * blk
            \<and> field bs 36 4 = B ''data'' \<and> 44 + n = length bs \<and> n mod blk = 0
         then Some \<lparr>channels = nch, bits = bps, rate = r, frames = n div blk\<rparr>
         else None)"

text \<open>
  The rounding the specification names: the nearest integer, a tie resolved toward
  zero.
\<close>

definition round_half_toward_zero :: "real \<Rightarrow> int" where
  "round_half_toward_zero y = (if 0 \<le> y then \<lceil>y - 1 / 2\<rceil> else \<lfloor>y + 1 / 2\<rfloor>)"

section \<open>JSON values and Python's coercions\<close>

text \<open>
  A Python \<^verbatim>\<open>float\<close> is a finite number, an infinity or NaN; a finite one is modelled by
  the real number it denotes, and a decimal literal by its exact value.
\<close>

datatype pyfloat = Finite real | PosInf | NegInf | NaN

text \<open>
  What \<^verbatim>\<open>json.loads\<close> returns: \<^verbatim>\<open>None\<close>, a \<^verbatim>\<open>bool\<close>, an \<^verbatim>\<open>int\<close>, a
  \<^verbatim>\<open>float\<close>, a \<^verbatim>\<open>str\<close>, a \<^verbatim>\<open>list\<close> or a \<^verbatim>\<open>dict\<close> (its items, looked up by
  key).
\<close>

datatype json =
    JNull | JBool bool | JInt int | JFloat pyfloat | JStr pystr
  | JArr "json list" | JObj "(pystr \<times> json) list"

text \<open>Python's truth value of an object, which \<^verbatim>\<open>x or d\<close> tests.\<close>

fun truthy :: "json \<Rightarrow> bool" where
  "truthy JNull = False"
| "truthy (JBool b) = b"
| "truthy (JInt n) = (n \<noteq> 0)"
| "truthy (JFloat f) = (f \<noteq> Finite 0)"
| "truthy (JStr s) = (s \<noteq> [])"
| "truthy (JArr xs) = (xs \<noteq> [])"
| "truthy (JObj kvs) = (kvs \<noteq> [])"

definition py_or :: "json \<Rightarrow> json \<Rightarrow> json" where
  "py_or v d = (if truthy v then v else d)"

text \<open>\<^verbatim>\<open>req.get(k)\<close> on a dict: \<^verbatim>\<open>None\<close> when the key is missing.\<close>

definition dict_get :: "(pystr \<times> json) list \<Rightarrow> pystr \<Rightarrow> json" where
  "dict_get d k = (case map_of d k of None \<Rightarrow> JNull | Some v \<Rightarrow> v)"

text \<open>
  \<^verbatim>\<open>str.strip()\<close> removes leading and trailing whitespace: the code points for which
  \<^verbatim>\<open>str.isspace\<close> holds.
\<close>

definition py_isspace :: "nat \<Rightarrow> bool" where
  "py_isspace c =
     ((9 \<le> c \<and> c \<le> 13) \<or> (28 \<le> c \<and> c \<le> 32) \<or> c = 133 \<or> c = 160 \<or> c = 5760
      \<or> (8192 \<le> c \<and> c \<le> 8202) \<or> c = 8232 \<or> c = 8233 \<or> c = 8239 \<or> c = 8287
      \<or> c = 12288)"

definition py_strip :: "pystr \<Rightarrow> pystr" where
  "py_strip s = rev (dropWhile py_isspace (rev (dropWhile py_isspace s)))"

text \<open>\<^verbatim>\<open>str(n)\<close> of an \<^verbatim>\<open>int\<close>: its decimal digits.\<close>

function digits :: "nat \<Rightarrow> pystr" where
  "digits n = (if n < 10 then [48 + n] else digits (n div 10) @ [48 + n mod 10])"
  by pat_completeness auto

termination
  by (relation "measure (\<lambda>n. n)") auto

declare digits.simps [simp del]

definition str_int :: "int \<Rightarrow> pystr" where
  "str_int i = (if i < 0 then 45 # digits (nat (- i)) else digits (nat i))"

fun type_name :: "json \<Rightarrow> pystr" where
  "type_name JNull = S ''NoneType''"
| "type_name (JBool b) = S ''bool''"
| "type_name (JInt n) = S ''int''"
| "type_name (JFloat f) = S ''float''"
| "type_name (JStr s) = S ''str''"
| "type_name (JArr xs) = S ''list''"
| "type_name (JObj kvs) = S ''dict''"

section \<open>The response and \<^verbatim>\<open>json.dumps\<close>\<close>

text \<open>
  A response is a dict of strings, booleans and integers, in insertion order.
  \<^verbatim>\<open>json.dumps\<close> writes \<^verbatim>\<open>{"k": v, ...}\<close> with the separators \<^verbatim>\<open>", "\<close> and
  \<^verbatim>\<open>": "\<close>. With \<^verbatim>\<open>ensure_ascii\<close> (the default) a string is written between double
  quotes, each code point outside \<^verbatim>\<open>' '\<close> to \<^verbatim>\<open>'~'\<close>, and the quote and the backslash,
  as an escape: the short escapes of \<^verbatim>\<open>ESCAPE_DCT\<close>, or four hexadecimal digits after
  \<^verbatim>\<open>\u\<close>, a code point above \<^verbatim>\<open>0xFFFF\<close> as a surrogate pair.
\<close>

datatype resp_value = RStr pystr | RBool bool | RInt int

type_synonym response = "(pystr \<times> resp_value) list"

definition hexdig :: "nat \<Rightarrow> nat" where
  "hexdig d = (if d < 10 then 48 + d else 87 + d)"

definition hex4 :: "nat \<Rightarrow> pystr" where
  "hex4 n = [hexdig (n div 4096 mod 16), hexdig (n div 256 mod 16),
             hexdig (n div 16 mod 16), hexdig (n mod 16)]"

definition escape_char :: "nat \<Rightarrow> pystr" where
  "escape_char c =
     (if c = 34 then [92, 34]
      else if c = 92 then [92, 92]
      else if c = 10 then [92, 110]
      else if c = 13 then [92, 114]
      else if c = 9 then [92, 116]
      else if c = 8 then [92, 98]
      else if c = 12 then [92, 102]
      else if 32 \<le> c \<and> c \<le> 126 then [c]
      else if c < 65536 then [92, 117] @ hex4 c
      else [92, 117] @ hex4 (55296 + (c - 65536) div 1024 mod 1024)
           @ [92, 117] @ hex4 (56320 + (c - 65536) mod 1024))"

definition dumps_str :: "pystr \<Rightarrow> pystr" where
  "dumps_str s = [34] @ concat (map escape_char s) @ [34]"

fun dumps_value :: "resp_value \<Rightarrow> pystr" where
  "dumps_value (RStr s) = dumps_str s"
| "dumps_value (RBool b) = (if b then S ''true'' else S ''false'')"
| "dumps_value (RInt i) = str_int i"

fun dumps_items :: "response \<Rightarrow> pystr" where
  "dumps_items [] = []"
| "dumps_items [(k, v)] = dumps_str k @ S '': '' @ dumps_value v"
| "dumps_items ((k, v) # kvs) = dumps_str k @ S '': '' @ dumps_value v @ S '', '' @ dumps_items kvs"

definition json_dumps :: "response \<Rightarrow> pystr" where
  "json_dumps resp = S ''{'' @ dumps_items resp @ S ''}''"

text \<open>
  \<^verbatim>\<open>base64.b64encode(b).decode("ascii")\<close>: three bytes become four characters of the
  standard alphabet, the last group padded with \<^verbatim>\<open>=\<close>.
\<close>

definition b64char :: "nat \<Rightarrow> nat" where
  "b64char n =
     (if n < 26 then 65 + n else if n < 52 then 71 + n else if n < 62 then n - 4
      else if n = 62 then 43 else 47)"

fun b64 :: "nat list \<Rightarrow> pystr" where
  "b64 [] = []"
| "b64 [a] = [b64char (a div 4), b64char (a mod 4 * 16), 61, 61]"
| "b64 [a, b] = [b64char (a div 4), b64char (a mod 4 * 16 + b div 16), b64char (b mod 16 * 4), 61]"
| "b64 (a # b # c # r) =
     [b64char (a div 4), b64char (a mod 4 * 16 + b div 16),
      b64char (b mod 16 * 4 + c div 64), b64char (c mod 64)] @ b64 r"

definition b64encode :: "byte list \<Rightarrow> pystr" where
  "b64encode bs = b64 (map unat bs)"

section \<open>The engine and the worker's state\<close>

text \<open>
  The engine is a collaborator. A call of the constructor \<^verbatim>\<open>KPipeline\<close> returns a handle
  or raises; a call of a handle yields chunks, each \<^verbatim>\<open>None\<close> or an array of samples, or
  raises. What a call does may depend on everything that happened before, so each
  collaborator function takes the log of the calls made so far; the worker appends every
  call with its result to the log, which also counts the calls.
\<close>

type_synonym chunk = "real list option"

datatype 'e call =
    Construct2 pystr "py_exc + 'e"
  | Construct1 pystr "py_exc + 'e"
  | Synthesize 'e pystr pystr pyfloat "py_exc + chunk list"

text \<open>
  The library functions the loop calls: \<^verbatim>\<open>json.loads\<close>, \<^verbatim>\<open>float\<close> of a \<^verbatim>\<open>str\<close>,
  \<^verbatim>\<open>str\<close> of a float, list or dict (their \<^verbatim>\<open>repr\<close>); the two forms of the
  constructor, with and without \<^verbatim>\<open>repo_id\<close>; and the call \<^verbatim>\<open>pipeline(text, voice=..., speed=..., split_pattern=r"\n+")\<close>
  iterated to its end.
\<close>

record 'e env =
  json_loads :: "pystr \<Rightarrow> py_exc + json"
  float_of_str :: "pystr \<Rightarrow> py_exc + pyfloat"
  py_repr :: "json \<Rightarrow> pystr"
  KPipeline2 :: "'e call list \<Rightarrow> pystr \<Rightarrow> py_exc + 'e"
  KPipeline1 :: "'e call list \<Rightarrow> pystr \<Rightarrow> py_exc + 'e"
  run_pipeline :: "'e call list \<Rightarrow> 'e \<Rightarrow> pystr \<Rightarrow> pystr \<Rightarrow> pyfloat \<Rightarrow> py_exc + chunk list"

text \<open>
  The state of \<^verbatim>\<open>main\<close>: the dict \<^verbatim>\<open>pipelines\<close>, the log of the engine calls, and the
  strings written to \<^verbatim>\<open>json_out\<close>, one per \<^verbatim>\<open>write\<close>.
\<close>

record 'e state =
  pipelines :: "pystr \<rightharpoonup> 'e"
  calls :: "'e call list"
  json_out :: "pystr list"

definition init_state :: "'e state" where
  "init_state = \<lparr>pipelines = Map.empty, calls = [], json_out = []\<rparr>"

section \<open>Normalising a request\<close>

text \<open>\<^verbatim>\<open>str(v)\<close>: a \<^verbatim>\<open>str\<close> is itself.\<close>

fun py_str :: "'e env \<Rightarrow> json \<Rightarrow> pystr" where
  "py_str env (JStr s) = s"
| "py_str env JNull = S ''None''"
| "py_str env (JBool b) = (if b then S ''True'' else S ''False'')"
| "py_str env (JInt n) = str_int n"
| "py_str env v = py_repr env v"

text \<open>
  \<^verbatim>\<open>float(v)\<close>. An \<^verbatim>\<open>int\<close> whose nearest double is beyond the largest one raises
  \<^verbatim>\<open>OverflowError\<close>: from \<open>2 ^ 1024 - 2 ^ 970\<close> on. A smaller one is modelled by its exact
  value. A list, a dict and \<^verbatim>\<open>None\<close> raise \<^verbatim>\<open>TypeError\<close>.
\<close>

definition float_type_error :: "json \<Rightarrow> py_exc" where
  "float_type_error v =
     PyExc TypeError (S ''float() argument must be a string or a real number, not ''
                      @ [39] @ type_name v @ [39])"

fun py_float :: "'e env \<Rightarrow> json \<Rightarrow> py_exc + pyfloat" where
  "py_float env (JFloat f) = Inr f"
| "py_float env (JInt n) =
     (if 2 ^ 1024 - 2 ^ 970 \<le> \<bar>n\<bar>
      then Inl (PyExc OverflowError (S ''int too large to convert to float''))
      else Inr (Finite (of_int n)))"
| "py_float env (JBool b) = Inr (Finite (if b then 1 else 0))"
| "py_float env (JStr s) = float_of_str env s"
| "py_float env v = Inl (float_type_error v)"

text \<open>The comparisons \<^verbatim>\<open>speed < 0.7\<close> and \<^verbatim>\<open>speed > 1.2\<close>; both are false for NaN.\<close>

fun float_less :: "pyfloat \<Rightarrow> real \<Rightarrow> bool" where
  "float_less (Finite x) c = (x < c)"
| "float_less NegInf c = True"
| "float_less PosInf c = False"
| "float_less NaN c = False"

fun float_greater :: "pyfloat \<Rightarrow> real \<Rightarrow> bool" where
  "float_greater (Finite x) c = (c < x)"
| "float_greater PosInf c = True"
| "float_greater NegInf c = False"
| "float_greater NaN c = False"

text \<open>Lines 106 to 109.\<close>

definition clamp_speed :: "pyfloat \<Rightarrow> pyfloat" where
  "clamp_speed speed =
     (let speed = (if float_less speed (7 / 10) then Finite (7 / 10) else speed);
          speed = (if float_greater speed (12 / 10) then Finite (12 / 10) else speed)
      in speed)"

text \<open>The pattern \<^verbatim>\<open>str(req.get(k) or d).strip()\<close> of lines 100 to 102.\<close>

definition str_field :: "'e env \<Rightarrow> (pystr \<times> json) list \<Rightarrow> pystr \<Rightarrow> pystr \<Rightarrow> pystr" where
  "str_field env d k dflt = py_strip (py_str env (py_or (dict_get d k) (JStr dflt)))"

definition or_default :: "pystr \<Rightarrow> pystr \<Rightarrow> pystr" where
  "or_default s dflt = (if s = [] then dflt else s)"

section \<open>The engine pool: \<^verbatim>\<open>get_pipeline\<close>\<close>

text \<open>Line 81: \<^verbatim>\<open>(lang_code or "a").strip() or "a"\<close>.\<close>

definition norm_lang :: "pystr \<Rightarrow> pystr" where
  "norm_lang lang_code = or_default (py_strip (or_default lang_code (S ''a''))) (S ''a'')"

text \<open>
  Lines 82 to 90. \<^verbatim>\<open>except TypeError\<close> catches a \<^verbatim>\<open>TypeError\<close> of the first form and
  tries the second; any other exception, and any exception of the second form, leaves
  the function before \<^verbatim>\<open>pipelines[lang_code] = p\<close>.
\<close>

definition get_pipeline :: "'e env \<Rightarrow> 'e state \<Rightarrow> pystr \<Rightarrow> (py_exc + 'e) \<times> 'e state" where
  "get_pipeline env s lang_code =
     (let lang_code = norm_lang lang_code in
      case pipelines s lang_code of
        Some p \<Rightarrow> (Inr p, s)
      | None \<Rightarrow>
          (let r2 = KPipeline2 env (calls s) lang_code;
               s2 = s\<lparr>calls := calls s @ [Construct2 lang_code r2]\<rparr>
           in case r2 of
                Inr p \<Rightarrow> (Inr p, s2\<lparr>pipelines := (pipelines s2)(lang_code \<mapsto> p)\<rparr>)
              | Inl e \<Rightarrow>
                  if exc_cls e = TypeError then
                    (let r1 = KPipeline1 env (calls s2) lang_code;
                         s1 = s2\<lparr>calls := calls s2 @ [Construct1 lang_code r1]\<rparr>
                     in case r1 of
                          Inr p \<Rightarrow> (Inr p, s1\<lparr>pipelines := (pipelines s1)(lang_code \<mapsto> p)\<rparr>)
                        | Inl e1 \<Rightarrow> (Inl e1, s1))
                  else (Inl e, s2)))"

section \<open>The protocol loop: \<^verbatim>\<open>main\<close>\<close>

definition success_response :: "pystr \<Rightarrow> pystr \<Rightarrow> response" where
  "success_response rid audio_base64 =
     [(S ''id'', RStr rid), (S ''ok'', RBool True), (S ''format'', RStr (S ''wav_24000'')),
      (S ''sample_rate'', RInt 24000), (S ''audio_base64'', RStr audio_base64)]"

definition failure_response :: "pystr \<Rightarrow> py_exc \<Rightarrow> response" where
  "failure_response rid exc =
     [(S ''id'', RStr rid), (S ''ok'', RBool False), (S ''error'', RStr (exc_str exc))]"

text \<open>\<^verbatim>\<open>json_out.write(json.dumps(resp) + "\n")\<close> and the flush.\<close>

definition write_response :: "'e state \<Rightarrow> response \<Rightarrow> 'e state" where
  "write_response s resp = s\<lparr>json_out := json_out s @ [json_dumps resp @ [10]]\<rparr>"

text \<open>
  How the body of the \<^verbatim>\<open>try\<close> ends: with \<^verbatim>\<open>continue\<close> (line 115, the response
  already written), with \<^verbatim>\<open>resp\<close> bound for line 145, or with an exception for the
  handler at line 140. The body is returned with the value \<^verbatim>\<open>rid\<close> has at that point.
\<close>

datatype outcome = Continued | Responded response | Raised py_exc

text \<open>Lines 117 to 139: synthesis and encoding.\<close>

definition synthesize ::
  "'e env \<Rightarrow> 'e state \<Rightarrow> pystr \<Rightarrow> pystr \<Rightarrow> pystr \<Rightarrow> pystr \<Rightarrow> pyfloat
     \<Rightarrow> pystr \<times> outcome \<times> 'e state" where
  "synthesize env s rid text voice lang_code speed =
     (case get_pipeline env s lang_code of
        (Inl e, s1) \<Rightarrow> (rid, Raised e, s1)
      | (Inr pipeline, s1) \<Rightarrow>
          (let r = run_pipeline env (calls s1) pipeline text voice speed;
               s2 = s1\<lparr>calls := calls s1 @ [Synthesize pipeline text voice speed r]\<rparr>
           in case r of
                Inl e \<Rightarrow> (rid, Raised e, s2)
              | Inr chunks \<Rightarrow>
                  (let audio_parts = concat (map (\<lambda>audio. case audio of None \<Rightarrow> [] | Some a \<Rightarrow> [a]) chunks);
                       audio_all = (if audio_parts = [] then [] else concat audio_parts)
                   in case wav_bytes_from_float32_mono audio_all 24000 of
                        Inl e \<Rightarrow> (rid, Raised e, s2)
                      | Inr wav_bytes \<Rightarrow>
                          (rid, Responded (success_response rid (b64encode wav_bytes)), s2))))"

text \<open>
  Lines 99 to 139, for the dict \<open>d\<close> that \<^verbatim>\<open>json.loads\<close> returned. \<^verbatim>\<open>str\<close> never
  raises; \<^verbatim>\<open>float\<close> at line 103 may, and then \<^verbatim>\<open>rid\<close> is already assigned.
\<close>

definition handle_request ::
  "'e env \<Rightarrow> 'e state \<Rightarrow> (pystr \<times> json) list \<Rightarrow> pystr \<times> outcome \<times> 'e state" where
  "handle_request env s d =
     (let rid = py_str env (py_or (dict_get d (S ''id'')) (JStr []));
          text = str_field env d (S ''text'') [];
          voice = or_default (str_field env d (S ''voice'') (S ''af_heart'')) (S ''af_heart'');
          lang_code = or_default (str_field env d (S ''lang_code'') (S ''a'')) (S ''a'')
      in case py_float env (py_or (dict_get d (S ''speed'')) (JFloat (Finite 1))) of
           Inl e \<Rightarrow> (rid, Raised e, s)
         | Inr speed0 \<Rightarrow>
             (let speed = clamp_speed speed0
              in if text = []
                 then (rid, Continued, write_response s (success_response rid []))
                 else synthesize env s rid text voice lang_code speed))"

text \<open>
  Lines 98 to 139. \<^verbatim>\<open>req.get\<close> exists only on a dict; on any other value of
  \<^verbatim>\<open>json.loads\<close> line 99 raises \<^verbatim>\<open>AttributeError\<close> before \<^verbatim>\<open>rid\<close> is assigned.
\<close>

definition no_get_error :: "json \<Rightarrow> py_exc" where
  "no_get_error req =
     PyExc AttributeError ([39] @ type_name req @ [39] @ S '' object has no attribute ''
                           @ [39] @ S ''get'' @ [39])"

definition try_body :: "'e env \<Rightarrow> 'e state \<Rightarrow> pystr \<Rightarrow> pystr \<times> outcome \<times> 'e state" where
  "try_body env s line =
     (case json_loads env line of
        Inl e \<Rightarrow> ([], Raised e, s)
      | Inr req \<Rightarrow>
          (case req of
             JObj d \<Rightarrow> handle_request env s d
           | _ \<Rightarrow> ([], Raised (no_get_error req), s)))"

text \<open>One turn of the loop, lines 93 to 146, for the line \<open>raw\<close> the iterator yields.\<close>

definition process_line :: "'e env \<Rightarrow> 'e state \<Rightarrow> pystr \<Rightarrow> 'e state" where
  "process_line env s raw =
     (let line = py_strip raw in
      if line = [] then s
      else case try_body env s line of
             (rid, Continued, s1) \<Rightarrow> s1
           | (rid, Responded resp, s1) \<Rightarrow> write_response s1 resp
           | (rid, Raised exc, s1) \<Rightarrow> write_response s1 (failure_response rid exc))"

text \<open>The loop over the lines of the input, until the input ends.\<close>

fun main_loop :: "'e env \<Rightarrow> 'e state \<Rightarrow> pystr list \<Rightarrow> 'e state" where
  "main_loop env s [] = s"
| "main_loop env s (raw # rest) = main_loop env (process_line env s raw) rest"

section \<open>Well-formed JSON text\<close>

text \<open>
  The grammar of a JSON object whose members are strings, integers, \<^verbatim>\<open>true\<close>,
  \<^verbatim>\<open>false\<close> and \<^verbatim>\<open>null\<close> (RFC 8259) is regular: \<open>jstep\<close> is its automaton, one
  code point at a time. A text is such an object when the automaton ends in \<open>JDone\<close>,
  which it reaches at the closing brace and leaves at any further code point.
\<close>

datatype jstate =
    JStart | JFirst | JKey | JInStr bool | JEsc bool | JHex bool nat | JColon | JValue
  | JLit pystr | JMinus | JZero | JDigits | JAfter | JDone | JFail

definition is_ws :: "nat \<Rightarrow> bool" where
  "is_ws c = (c = 32 \<or> c = 9 \<or> c = 10 \<or> c = 13)"

definition is_digit :: "nat \<Rightarrow> bool" where
  "is_digit c = (48 \<le> c \<and> c \<le> 57)"

definition is_hex :: "nat \<Rightarrow> bool" where
  "is_hex c = (is_digit c \<or> (97 \<le> c \<and> c \<le> 102) \<or> (65 \<le> c \<and> c \<le> 70))"

definition after_value :: "nat \<Rightarrow> jstate" where
  "after_value c =
     (if is_ws c then JAfter else if c = 44 then JKey else if c = 125 then JDone else JFail)"

fun jstep :: "jstate \<Rightarrow> nat \<Rightarrow> jstate" where
  "jstep JStart c = (if is_ws c then JStart else if c = 123 then JFirst else JFail)"
| "jstep JFirst c =
     (if is_ws c then JFirst else if c = 34 then JInStr True
      else if c = 125 then JDone else JFail)"
| "jstep JKey c = (if is_ws c then JKey else if c = 34 then JInStr True else JFail)"
| "jstep (JInStr k) c =
     (if c = 34 then (if k then JColon else JAfter)
      else if c = 92 then JEsc k else if c < 32 then JFail else JInStr k)"
| "jstep (JEsc k) c =
     (if c = 34 \<or> c = 92 \<or> c = 47 \<or> c = 98 \<or> c = 102 \<or> c = 110 \<or> c = 114 \<or> c = 116
      then JInStr k
      else if c = 117 then JHex k 4 else JFail)"
| "jstep (JHex k n) c =
     (if is_hex c then (if n \<le> 1 then JInStr k else JHex k (n - 1)) else JFail)"
| "jstep JColon c = (if is_ws c then JColon else if c = 58 then JValue else JFail)"
| "jstep JValue c =
     (if is_ws c then JValue else if c = 34 then JInStr False
      else if c = 116 then JLit (S ''rue'') else if c = 102 then JLit (S ''alse'')
      else if c = 110 then JLit (S ''ull'') else if c = 45 then JMinus
      else if c = 48 then JZero else if is_digit c then JDigits else JFail)"
| "jstep (JLit []) c = JFail"
| "jstep (JLit (x # xs)) c = (if c = x then (if xs = [] then JAfter else JLit xs) else JFail)"
| "jstep JMinus c = (if c = 48 then JZero else if is_digit c then JDigits else JFail)"
| "jstep JZero c = after_value c"
| "jstep JDigits c = (if is_digit c then JDigits else after_value c)"
| "jstep JAfter c = after_value c"
| "jstep JDone c = JFail"
| "jstep JFail c = JFail"

definition json_object_ok :: "pystr \<Rightarrow> bool" where
  "json_object_ok t = (foldl jstep JStart t = JDone)"

text \<open>
  A protocol line: one object, then one newline, and no newline before it.
\<close>

definition protocol_line_ok :: "pystr \<Rightarrow> bool" where
  "protocol_line_ok l =
     (l \<noteq> [] \<and> last l = 10 \<and> 10 \<notin> set (butlast l) \<and> json_object_ok (butlast l))"

definition value_done :: "jstate \<Rightarrow> bool" where
  "value_done st = (st = JAfter \<or> st = JZero \<or> st = JDigits)"

section \<open>The engine instances in the log\<close>

text \<open>
  An engine instance is constructed each time a call of the constructor returns a
  handle. \<open>instances\<close> lists them, with their language codes, in the order of
  construction. \<open>pool_inv\<close>: no language code has two instances, and the instances
  are exactly the entries of the cache.
\<close>

fun built :: "'e call \<Rightarrow> (pystr \<times> 'e) list" where
  "built (Construct2 l (Inr p)) = [(l, p)]"
| "built (Construct1 l (Inr p)) = [(l, p)]"
| "built c = []"

definition instances :: "'e call list \<Rightarrow> (pystr \<times> 'e) list" where
  "instances cs = concat (map built cs)"

definition pool_inv :: "'e state \<Rightarrow> bool" where
  "pool_inv s =
     (distinct (map fst (instances (calls s))) \<and> map_of (instances (calls s)) = pipelines s)"

section \<open>A stub engine for the examples\<close>

text \<open>
  The examples run the worker against a stub, as a test would: a loader that knows the
  lines of the examples and rejects every other line as \<^verbatim>\<open>json.loads\<close> rejects
  \<^verbatim>\<open>oops\<close>; an engine whose handles are numbered by the length of the log, whose
  two-argument constructor raises \<^verbatim>\<open>TypeError\<close> for the languages \<^verbatim>\<open>t\<close> and \<^verbatim>\<open>u\<close>
  and fails on the first attempt for the language \<^verbatim>\<open>f\<close>, whose one-argument
  constructor fails for \<^verbatim>\<open>u\<close>, and which yields two chunks of one sample around an
  empty chunk, except for the voice \<^verbatim>\<open>bad\<close>. No example takes \<^verbatim>\<open>str\<close> of a float, a
  list or a dict.
\<close>

definition stub_lines :: "(pystr \<times> json) list" where
  \<open>stub_lines =
     [(S ''{"id":"1","text":"","voice":"x"}'',
         JObj [(S ''id'', JStr (S ''1'')), (S ''text'', JStr []), (S ''voice'', JStr (S ''x''))]),
      (S ''{"id":"2","text":"hi","speed":5.0}'',
         JObj [(S ''id'', JStr (S ''2'')), (S ''text'', JStr (S ''hi'')), (S ''speed'', JFloat (Finite 5))]),
      (S ''{"id":"4","text":"hi","voice":"bad"}'',
         JObj [(S ''id'', JStr (S ''4'')), (S ''text'', JStr (S ''hi'')), (S ''voice'', JStr (S ''bad''))]),
      (S ''{"id":"5","text":"","speed":"fast"}'',
         JObj [(S ''id'', JStr (S ''5'')), (S ''text'', JStr []), (S ''speed'', JStr (S ''fast''))]),
      (S ''{"id":7,"text":"hi","speed":0}'',
         JObj [(S ''id'', JInt 7), (S ''text'', JStr (S ''hi'')), (S ''speed'', JInt 0)]),
      (S ''{"id":0,"text":null,"voice":false,"lang_code":"","speed":null}'',
         JObj [(S ''id'', JInt 0), (S ''text'', JNull), (S ''voice'', JBool False),
               (S ''lang_code'', JStr []), (S ''speed'', JNull)])]\<close>

definition stub_loads :: "pystr \<Rightarrow> py_exc + json" where
  "stub_loads line =
     (case map_of stub_lines line of
        Some v \<Rightarrow> Inr v
      | None \<Rightarrow> Inl (PyExc JSONDecodeError (S ''Expecting value: line 1 column 1 (char 0)'')))"

definition stub_float_of_str :: "pystr \<Rightarrow> py_exc + pyfloat" where
  "stub_float_of_str s =
     Inl (PyExc ValueError (S ''could not convert string to float: '' @ [39] @ s @ [39]))"

fun is_construct2_of :: "pystr \<Rightarrow> nat call \<Rightarrow> bool" where
  "is_construct2_of l (Construct2 k r) = (k = l)"
| "is_construct2_of l c = False"

definition stub_KPipeline2 :: "nat call list \<Rightarrow> pystr \<Rightarrow> py_exc + nat" where
  "stub_KPipeline2 hist lang =
     (if lang = S ''t'' \<or> lang = S ''u''
      then Inl (PyExc TypeError (S ''KPipeline.__init__() got an unexpected keyword argument ''
                                 @ [39] @ S ''repo_id'' @ [39]))
      else if lang = S ''f'' \<and> \<not> list_ex (is_construct2_of lang) hist
      then Inl (PyExc OtherError (S ''download failed''))
      else Inr (length hist))"

definition stub_KPipeline1 :: "nat call list \<Rightarrow> pystr \<Rightarrow> py_exc + nat" where
  "stub_KPipeline1 hist lang =
     (if lang = S ''u'' then Inl (PyExc OtherError (S ''unsupported language''))
      else Inr (length hist))"

definition stub_run ::
  "nat call list \<Rightarrow> nat \<Rightarrow> pystr \<Rightarrow> pystr \<Rightarrow> pyfloat \<Rightarrow> py_exc + chunk list" where
  "stub_run hist p text voice speed =
     (if voice = S ''bad'' then Inl (PyExc ValueError (S ''unknown voice''))
      else Inr [Some [1 / 4], None, Some [3 / 2]])"

definition stub_env :: "nat env" where
  "stub_env =
     \<lparr>json_loads = stub_loads, float_of_str = stub_float_of_str, py_repr = (\<lambda>v. []),
      KPipeline2 = stub_KPipeline2, KPipeline1 = stub_KPipeline1, run_pipeline = stub_run\<rparr>"

definition line1 :: pystr where
  \<open>line1 = S ''{"id":"1","text":"","voice":"x"}''\<close>

section \<open>The id a response must carry\<close>

text \<open>
  The best-available id of a line: the id the request carries, as a string, when the
  line parses to an object with an id that is not falsy; the empty string otherwise.
\<close>

definition best_id :: "'e env \<Rightarrow> pystr \<Rightarrow> pystr" where
  "best_id env line =
     (case json_loads env line of
        Inl e \<Rightarrow> []
      | Inr req \<Rightarrow>
          (case req of
             JObj d \<Rightarrow>
               (case map_of d (S ''id'') of
                  None \<Rightarrow> []
                | Some v \<Rightarrow> if truthy v then py_str env v else [])
           | _ \<Rightarrow> []))"

definition line4 :: pystr where
  \<open>line4 = S ''{"id":"4","text":"hi","voice":"bad"}''\<close>

definition state4 :: "nat state" where
  "state4 =
     \<lparr>pipelines = [S ''a'' \<mapsto> 0],
      calls = [Construct2 (S ''a'') (Inr 0),
               Synthesize 0 (S ''hi'') (S ''bad'') (Finite 1)
                 (Inl (PyExc ValueError (S ''unknown voice'')))],
      json_out = []\<rparr>"

definition line5 :: pystr where
  \<open>line5 = S ''{"id":"5","text":"","speed":"fast"}''\<close>

section \<open>The speeds the engine is called with\<close>

text \<open>
  \<open>engine_speeds\<close> lists the \<^verbatim>\<open>speed\<close> arguments of the calls of an engine handle in
  the log, in order. \<open>speed_value\<close> is the number a request asks for: the value of a
  finite number that is not zero, and the default 1 for a speed that is absent, null,
  zero or otherwise falsy.
\<close>

fun call_speed :: "'e call \<Rightarrow> pyfloat list" where
  "call_speed (Synthesize p t v sp r) = [sp]"
| "call_speed c = []"

definition engine_speeds :: "'e call list \<Rightarrow> pyfloat list" where
  "engine_speeds cs = concat (map call_speed cs)"

fun speed_value :: "json \<Rightarrow> real option" where
  "speed_value (JFloat (Finite x)) = Some (if x = 0 then 1 else x)"
| "speed_value (JInt n) =
     (if n = 0 then Some 1 else if \<bar>n\<bar> < 2 ^ 1024 - 2 ^ 970 then Some (of_int n) else None)"
| "speed_value v = (if truthy v then None else Some 1)"

definition line7 :: pystr where
  \<open>line7 = S ''{"id":7,"text":"hi","speed":0}''\<close>

definition line2 :: pystr where
  \<open>line2 = S ''{"id":"2","text":"hi","speed":5.0}''\<close>

definition stateA :: "nat state" where
  "stateA = \<lparr>pipelines = [S ''a'' \<mapsto> 0], calls = [Construct2 (S ''a'') (Inr 0)], json_out = []\<rparr>"

definition stateB :: "nat state" where
  "stateB =
     \<lparr>pipelines = [S ''a'' \<mapsto> 0, S ''b'' \<mapsto> 1],
      calls = [Construct2 (S ''a'') (Inr 0), Construct2 (S ''b'') (Inr 1)], json_out = []\<rparr>"

definition stateF :: "nat state" where
  "stateF =
     \<lparr>pipelines = Map.empty,
      calls = [Construct2 (S ''f'') (Inl (PyExc OtherError (S ''download failed'')))],
      json_out = []\<rparr>"

definition line8 :: pystr where
  \<open>line8 = S ''{"id":0,"text":null,"voice":false,"lang_code":"","speed":null}''\<close>

section \<open>Float32 rounding and truncation\<close>

lemma f32_ulp_from_form: "\<exists>i. f32_ulp_from n b x = b / 2 ^ i / 2 ^ 23"
proof (induction n arbitrary: b)
  case 0
  have "f32_ulp_from 0 b x = b / 2 ^ 0 / 2 ^ 23" by simp
  then show ?case by blast
next
  case (Suc n)
  show ?case
  proof (cases "b \<le> \<bar>x\<bar>")
    case True
    then have "f32_ulp_from (Suc n) b x = b / 2 ^ 0 / 2 ^ 23" by simp
    then show ?thesis by blast
  next
    case False
    from Suc.IH [of "b / 2"] obtain i where "f32_ulp_from n (b / 2) x = b / 2 / 2 ^ i / 2 ^ 23"
      by blast
    with False have "f32_ulp_from (Suc n) b x = b / 2 ^ Suc i / 2 ^ 23" by simp
    then show ?thesis by blast
  qed
qed

lemma f32_ulp_pow2: "\<exists>m. f32_ulp_from n (2 ^ 14) x = 1 / 2 ^ m"
proof -
  obtain i where "f32_ulp_from n (2 ^ 14) x = 2 ^ 14 / 2 ^ i / 2 ^ 23"
    using f32_ulp_from_form by blast
  then have "f32_ulp_from n (2 ^ 14) x = 1 / 2 ^ (i + 9)"
    by (simp add: power_add)
  then show ?thesis by blast
qed

lemma rne_of_int: "rne (of_int k) = k"
  by (simp add: rne_def)

lemma rne_le: "x \<le> of_int k \<Longrightarrow> rne x \<le> k"
  unfolding rne_def Let_def by (auto; linarith)

lemma rne_ge: "of_int k \<le> x \<Longrightarrow> k \<le> rne x"
  unfolding rne_def Let_def by (auto; linarith)

lemma f32_round_scaled: "\<exists>m. f32_round x = of_int (rne (x * 2 ^ m)) / 2 ^ m"
proof -
  obtain m where "f32_ulp_from 140 (2 ^ 14) x = 1 / 2 ^ m"
    using f32_ulp_pow2 by blast
  then have "f32_round x = of_int (rne (x * 2 ^ m)) / 2 ^ m"
    by (simp add: f32_round_def)
  then show ?thesis by blast
qed

lemma f32_round_le: assumes "x \<le> of_int k" shows "f32_round x \<le> of_int k"
proof -
  obtain m where m: "f32_round x = of_int (rne (x * 2 ^ m)) / 2 ^ m"
    using f32_round_scaled by blast
  have "x * 2 ^ m \<le> of_int (k * 2 ^ m)" using assms by simp
  then have "rne (x * 2 ^ m) \<le> k * 2 ^ m" by (rule rne_le)
  then have "(of_int (rne (x * 2 ^ m)) :: real) \<le> of_int (k * 2 ^ m)" by linarith
  then show ?thesis by (simp add: m divide_le_eq)
qed

lemma f32_round_ge: assumes "of_int k \<le> x" shows "of_int k \<le> f32_round x"
proof -
  obtain m where m: "f32_round x = of_int (rne (x * 2 ^ m)) / 2 ^ m"
    using f32_round_scaled by blast
  have "of_int (k * 2 ^ m) \<le> x * 2 ^ m" using assms by simp
  then have "k * 2 ^ m \<le> rne (x * 2 ^ m)" by (rule rne_ge)
  then have "(of_int (k * 2 ^ m) :: real) \<le> of_int (rne (x * 2 ^ m))" by linarith
  then show ?thesis by (simp add: m le_divide_eq)
qed

lemma f32_round_of_int: "f32_round (of_int k) = of_int k"
  using f32_round_le [of "of_int k" k] f32_round_ge [of k "of_int k"] by simp

lemma c_trunc_of_int: "c_trunc (of_int k) = k"
  by (simp add: c_trunc_def)

lemma c_trunc_le: "x \<le> of_int k \<Longrightarrow> c_trunc x \<le> k"
  unfolding c_trunc_def by (auto; linarith)

lemma c_trunc_ge: "of_int k \<le> x \<Longrightarrow> k \<le> c_trunc x"
  unfolding c_trunc_def by (auto; linarith)

lemma sint16: "- 32768 \<le> k \<Longrightarrow> k < 32768 \<Longrightarrow> sint (word_of_int k :: 16 word) = k"
  by (simp add: signed_of_int signed_take_bit_int_eq_self)

lemma rne_err: "\<bar>of_int (rne y) - y\<bar> \<le> 1 / 2"
  unfolding rne_def Let_def by (auto; linarith)

lemma f32_ulp_pow2_9: "\<exists>m. f32_ulp_from n (2 ^ 14) x = 1 / 2 ^ (m + 9)"
proof -
  obtain i where "f32_ulp_from n (2 ^ 14) x = 2 ^ 14 / 2 ^ i / 2 ^ 23"
    using f32_ulp_from_form by blast
  then have "f32_ulp_from n (2 ^ 14) x = 1 / 2 ^ (i + 9)"
    by (simp add: power_add)
  then show ?thesis by blast
qed

lemma f32_round_err: "\<bar>f32_round x - x\<bar> \<le> 1 / 1024"
proof -
  obtain m where u: "f32_ulp_from 140 (2 ^ 14) x = 1 / 2 ^ (m + 9)"
    using f32_ulp_pow2_9 by blast
  define k :: real where "k = 2 ^ (m + 9)"
  have k: "512 \<le> k" "0 < k"
    unfolding k_def by (simp_all add: power_add)
  have r: "f32_round x = of_int (rne (x * k)) / k"
    using u by (simp add: f32_round_def k_def)
  define R :: real where "R = of_int (rne (x * k))"
  have "\<bar>R - x * k\<bar> \<le> 1 / 2" unfolding R_def by (rule rne_err)
  then have a: "R - x * k \<le> 1 / 2" "x * k - R \<le> 1 / 2" by linarith+
  have e: "R / k - x = (R - x * k) / k" "x - R / k = (x * k - R) / k"
    using k by (simp_all add: diff_divide_distrib)
  have h: "(R - x * k) / k \<le> (1 / 2) / k" "(x * k - R) / k \<le> (1 / 2) / k"
    using a k by (intro divide_right_mono; simp)+
  have c: "(1 / 2) / k \<le> 1 / 1024" using k by simp
  have p1: "R / k - x \<le> 1 / 1024" unfolding e(1) using h(1) c by (rule order_trans)
  have p2: "x - R / k \<le> 1 / 1024" unfolding e(2) using h(2) c by (rule order_trans)
  have "- (R / k - x) \<le> 1 / 1024" using p2 by (simp only: minus_diff_eq)
  with p1 have "\<bar>R / k - x\<bar> \<le> 1 / 1024" by (rule abs_leI)
  then show ?thesis unfolding r R_def .
qed

lemma c_trunc_abs: "\<bar>of_int (c_trunc p)\<bar> \<le> \<bar>p\<bar> \<and> \<bar>p\<bar> < \<bar>of_int (c_trunc p)\<bar> + 1"
  unfolding c_trunc_def by (auto; linarith)

lemma c_trunc_sign: "(0 \<le> p \<longrightarrow> 0 \<le> c_trunc p) \<and> (p \<le> 0 \<longrightarrow> c_trunc p \<le> 0)"
  unfolding c_trunc_def by (auto; linarith)

lemma product_range:
  "- 32767 \<le> f32_mul (np_clip x (- 1) 1) 32767 \<and> f32_mul (np_clip x (- 1) 1) 32767 \<le> 32767"
proof -
  have "- 1 \<le> np_clip x (- 1) 1" "np_clip x (- 1) 1 \<le> 1"
    by (simp_all add: np_clip_def)
  then have "of_int (- 32767) \<le> np_clip x (- 1) 1 * 32767" "np_clip x (- 1) 1 * 32767 \<le> of_int 32767"
    by simp_all
  then show ?thesis
    unfolding f32_mul_def using f32_round_ge f32_round_le by (metis of_int_minus of_int_numeral)
qed

lemma quantize_range:
  "- 32767 \<le> c_trunc (f32_mul (np_clip x (- 1) 1) 32767) \<and> c_trunc (f32_mul (np_clip x (- 1) 1) 32767) \<le> 32767"
  using product_range [of x] c_trunc_ge [of "- 32767"] c_trunc_le [of _ 32767] by simp

lemma sint_quantize:
  "sint (astype_int16 (f32_mul (np_clip x (- 1) 1) 32767)) = c_trunc (f32_mul (np_clip x (- 1) 1) 32767)"
  unfolding astype_int16_def using quantize_range [of x] by (intro sint16) linarith+

lemma quantize_hi: "1 \<le> x \<Longrightarrow> c_trunc (f32_mul (np_clip x (- 1) 1) 32767) = 32767"
  using f32_round_of_int [of 32767] c_trunc_of_int [of 32767]
  by (simp add: np_clip_def f32_mul_def)

lemma quantize_lo: "x \<le> - 1 \<Longrightarrow> c_trunc (f32_mul (np_clip x (- 1) 1) 32767) = - 32767"
  using f32_round_of_int [of "- 32767"] c_trunc_of_int [of "- 32767"]
  by (simp add: np_clip_def f32_mul_def)

lemma pcm16_truncates:
  "length (pcm16 a) = length a
   \<and> (\<forall>i < length a. sint (pcm16 a ! i) = c_trunc (f32_mul (np_clip (a ! i) (- 1) 1) 32767))
   \<and> (let p = f32_mul (np_clip x (- 1) 1) 32767; q = c_trunc p in
        \<bar>p - np_clip x (- 1) 1 * 32767\<bar> \<le> 1 / 1024
        \<and> - 32767 \<le> q \<and> q \<le> 32767
        \<and> \<bar>of_int q\<bar> \<le> \<bar>p\<bar> \<and> \<bar>p\<bar> < \<bar>of_int q\<bar> + 1
        \<and> (0 \<le> p \<longrightarrow> 0 \<le> q) \<and> (p \<le> 0 \<longrightarrow> q \<le> 0)
        \<and> (1 \<le> x \<longrightarrow> q = 32767) \<and> (x \<le> - 1 \<longrightarrow> q = - 32767))"
proof -
  have "length (pcm16 a) = length a" by (simp add: pcm16_def)
  moreover have "\<forall>i < length a. sint (pcm16 a ! i) = c_trunc (f32_mul (np_clip (a ! i) (- 1) 1) 32767)"
    by (simp add: pcm16_def sint_quantize)
  moreover have "\<bar>f32_mul (np_clip x (- 1) 1) 32767 - np_clip x (- 1) 1 * 32767\<bar> \<le> 1 / 1024"
    unfolding f32_mul_def by (rule f32_round_err)
  ultimately show ?thesis
    unfolding Let_def
    using quantize_range [of x] c_trunc_abs c_trunc_sign quantize_hi [of x] quantize_lo [of x]
    by blast
qed

lemma f32_round_quarter: "f32_round (32767 / 4) = 32767 / 4"
  by (simp add: f32_round_def rne_def eval_nat_numeral)

lemma quantize_quarter: "c_trunc (f32_mul (np_clip (1 / 4) (- 1) 1) 32767) = 8191"
  by (simp add: np_clip_def f32_mul_def f32_round_quarter c_trunc_def)

section \<open>The container\<close>

lemma length_le_bytes: "length (le_bytes k n) = k"
  by (induction k arbitrary: n) simp_all

lemma le_nat_le_bytes: "le_nat (le_bytes k n) = n mod 256 ^ k"
proof (induction k arbitrary: n)
  case 0
  show ?case by simp
next
  case (Suc k)
  have "le_nat (le_bytes (Suc k) n) = n mod 256 + 256 * (n div 256 mod 256 ^ k)"
    by (simp add: Suc.IH unat_of_nat)
  also have "\<dots> = n mod 256 ^ Suc k"
    by (simp add: mod_mult2_eq)
  finally show ?case .
qed

lemma le_nat_le_bytes_4: "n < 2 ^ 32 \<Longrightarrow> le_nat (le_bytes 4 n) = n"
  by (simp add: le_nat_le_bytes)

lemma le_nat_le_bytes_2: "n < 2 ^ 16 \<Longrightarrow> le_nat (le_bytes 2 n) = n"
  by (simp add: le_nat_le_bytes)

lemma length_tobytes: "length (concat (map tobytes_int16 ws)) = 2 * length ws"
  by (induction ws) (simp_all add: tobytes_int16_def)

lemma field_here: "length xs = n \<Longrightarrow> field (xs @ ys) 0 n = xs"
  by (simp add: field_def)

lemma field_skip: "length xs \<le> off \<Longrightarrow> field (xs @ ys) off n = field ys (off - length xs) n"
  by (simp add: field_def)

lemma read_wav_wave_write:
  assumes "0 < r" "r < 2 ^ 31" "length pcm < 2 ^ 32 - 36" "even (length pcm)"
  shows "\<exists>bs. wave_write_mono16 r pcm = Inr bs \<and> length bs = 44 + length pcm
     \<and> read_wav bs = Some \<lparr>channels = 1, bits = 16, rate = nat r, frames = length pcm div 2\<rparr>"
proof -
  let ?bs = "B ''RIFF'' @ le_bytes 4 (36 + length pcm) @ B ''WAVE'' @ B ''fmt ''
                  @ le_bytes 4 16 @ le_bytes 2 1 @ le_bytes 2 1
                  @ le_bytes 4 (nat r) @ le_bytes 4 (nat (1 * r * 2))
                  @ le_bytes 2 (1 * 2) @ le_bytes 2 (2 * 8) @ B ''data''
                  @ le_bytes 4 (length pcm) @ pcm"
  have w: "wave_write_mono16 r pcm = Inr ?bs"
    using assms by (simp add: wave_write_mono16_def fits_L_def Let_def)
  have len: "length ?bs = 44 + length pcm"
    by (simp add: length_le_bytes B_def)
  have lb: "length (B ''RIFF'') = 4" "length (B ''WAVE'') = 4" "length (B ''fmt '') = 4" "length (B ''data'') = 4"
    by (simp_all add: B_def)
  have f0: "field ?bs 0 4 = B ''RIFF''" by (simp add: field_here lb)
  have f4: "field ?bs 4 4 = le_bytes 4 (36 + length pcm)"
    by (simp add: field_here field_skip lb length_le_bytes)
  have f8: "field ?bs 8 4 = B ''WAVE''"
    by (simp add: field_here field_skip lb length_le_bytes)
  have f12: "field ?bs 12 4 = B ''fmt ''"
    by (simp add: field_here field_skip lb length_le_bytes)
  have f16: "field ?bs 16 4 = le_bytes 4 16"
    by (simp add: field_here field_skip lb length_le_bytes)
  have f20: "field ?bs 20 2 = le_bytes 2 1"
    by (simp add: field_here field_skip lb length_le_bytes)
  have f22: "field ?bs 22 2 = le_bytes 2 1"
    by (simp add: field_here field_skip lb length_le_bytes)
  have f24: "field ?bs 24 4 = le_bytes 4 (nat r)"
    by (simp add: field_here field_skip lb length_le_bytes)
  have f28: "field ?bs 28 4 = le_bytes 4 (nat (1 * r * 2))"
    by (simp add: field_here field_skip lb length_le_bytes)
  have f32: "field ?bs 32 2 = le_bytes 2 (1 * 2)"
    by (simp add: field_here field_skip lb length_le_bytes)
  have f34: "field ?bs 34 2 = le_bytes 2 (2 * 8)"
    by (simp add: field_here field_skip lb length_le_bytes)
  have f36: "field ?bs 36 4 = B ''data''"
    by (simp add: field_here field_skip lb length_le_bytes)
  have f40: "field ?bs 40 4 = le_bytes 4 (length pcm)"
    by (simp add: field_here field_skip lb length_le_bytes)
  have n1: "le_nat (le_bytes 4 (36 + length pcm)) = 36 + length pcm"
    using assms by (intro le_nat_le_bytes_4) simp
  have n2: "le_nat (le_bytes 4 (nat r)) = nat r"
    using assms by (intro le_nat_le_bytes_4) simp
  have n3: "le_nat (le_bytes 4 (nat (1 * r * 2))) = nat r * 2"
    using assms le_nat_le_bytes_4 [of "nat (1 * r * 2)"] by (simp add: nat_mult_distrib)
  have n4: "le_nat (le_bytes 4 (length pcm)) = length pcm"
    using assms by (intro le_nat_le_bytes_4) simp
  have n5: "le_nat (le_bytes 4 16) = 16" "le_nat (le_bytes 2 1) = 1"
    "le_nat (le_bytes 2 (1 * 2)) = 2" "le_nat (le_bytes 2 (2 * 8)) = 16"
    by (simp_all add: le_nat_le_bytes)
  have "read_wav ?bs = Some \<lparr>channels = 1, bits = 16, rate = nat r, frames = length pcm div 2\<rparr>"
    unfolding read_wav_def Let_def f0 f4 f8 f12 f16 f20 f22 f24 f28 f32 f34 f36 f40 n1 n2 n3 n4 n5 len
    using assms by simp
  with w len show ?thesis by blast
qed

lemma wav_bytes_valid:
  assumes "sample_rate < 2 ^ 31" "length audio < 2 ^ 31 - 18"
  shows "\<exists>bs. wav_bytes_from_float32_mono audio sample_rate = Inr bs
     \<and> length bs = 44 + 2 * length audio
     \<and> read_wav bs = Some \<lparr>channels = 1, bits = 16,
           rate = (if sample_rate \<le> 0 then 24000 else nat sample_rate),
           frames = length audio\<rparr>"
proof -
  define r where "r = (if sample_rate \<le> 0 then 24000 else sample_rate)"
  define pcm where "pcm = (if length audio = 0 then [] else concat (map tobytes_int16 (pcm16 audio)))"
  have "length (pcm16 audio) = length audio" by (simp add: pcm16_def)
  then have l: "length pcm = 2 * length audio"
    unfolding pcm_def by (simp only: length_tobytes split: if_splits) simp
  have r: "0 < r" "r < 2 ^ 31" using assms by (simp_all add: r_def)
  have "length pcm < 2 ^ 32 - 36" "even (length pcm)" using assms l by simp_all
  from read_wav_wave_write [OF r this] obtain bs where
    "wave_write_mono16 r pcm = Inr bs" "length bs = 44 + length pcm"
    "read_wav bs = Some \<lparr>channels = 1, bits = 16, rate = nat r, frames = length pcm div 2\<rparr>"
    by blast
  moreover have "wav_bytes_from_float32_mono audio sample_rate = wave_write_mono16 r pcm"
    by (simp add: wav_bytes_from_float32_mono_def r_def pcm_def Let_def)
  moreover have "nat r = (if sample_rate \<le> 0 then 24000 else nat sample_rate)"
    by (simp add: r_def)
  ultimately show ?thesis using l by simp
qed

text \<open>
  Claim C6, as the code has it. For a sample rate below \<open>2 ^ 31\<close> and fewer than
  \<open>2 ^ 31 - 18\<close> samples the encoder returns a container that reads back as one channel
  of 16 bits at the given rate with one frame per sample; a zero-length buffer gives the
  44-byte header alone, describing zero frames; a sample rate that is not positive is
  replaced by 24000.
\<close>

theorem encoder_total_within_header_range:
  "(sample_rate < 2 ^ 31 \<and> length audio < 2 ^ 31 - 18 \<longrightarrow>
      (\<exists>bs. wav_bytes_from_float32_mono audio sample_rate = Inr bs
         \<and> read_wav bs = Some \<lparr>channels = 1, bits = 16,
               rate = (if sample_rate \<le> 0 then 24000 else nat sample_rate),
               frames = length audio\<rparr>))
   \<and> (sample_rate < 2 ^ 31 \<longrightarrow>
      (\<exists>bs. wav_bytes_from_float32_mono [] sample_rate = Inr bs \<and> length bs = 44
         \<and> read_wav bs = Some \<lparr>channels = 1, bits = 16,
               rate = (if sample_rate \<le> 0 then 24000 else nat sample_rate),
               frames = 0\<rparr>))
   \<and> (sample_rate \<le> 0 \<longrightarrow>
      wav_bytes_from_float32_mono audio sample_rate = wav_bytes_from_float32_mono audio 24000)"
proof -
  have a: "sample_rate < 2 ^ 31 \<and> length audio < 2 ^ 31 - 18 \<longrightarrow>
      (\<exists>bs. wav_bytes_from_float32_mono audio sample_rate = Inr bs
         \<and> read_wav bs = Some \<lparr>channels = 1, bits = 16,
               rate = (if sample_rate \<le> 0 then 24000 else nat sample_rate),
               frames = length audio\<rparr>)"
    using wav_bytes_valid [of sample_rate audio] by blast
  have b: "sample_rate < 2 ^ 31 \<longrightarrow>
      (\<exists>bs. wav_bytes_from_float32_mono [] sample_rate = Inr bs \<and> length bs = 44
         \<and> read_wav bs = Some \<lparr>channels = 1, bits = 16,
               rate = (if sample_rate \<le> 0 then 24000 else nat sample_rate),
               frames = 0\<rparr>)"
    using wav_bytes_valid [of sample_rate "[]"] by simp
  have c: "sample_rate \<le> 0 \<longrightarrow>
      wav_bytes_from_float32_mono audio sample_rate = wav_bytes_from_float32_mono audio 24000"
    by (simp add: wav_bytes_from_float32_mono_def)
  from a b c show ?thesis by blast
qed

theorem encoder_total_within_header_range_witness:
  "wav_bytes_from_float32_mono [1 / 4] 0 = wav_bytes_from_float32_mono [1 / 4] 24000
   \<and> (\<exists>bs. wav_bytes_from_float32_mono [] 0 = Inr bs \<and> length bs = 44
         \<and> read_wav bs = Some \<lparr>channels = 1, bits = 16, rate = 24000, frames = 0\<rparr>)
   \<and> (\<exists>bs. wav_bytes_from_float32_mono [1 / 4] 0 = Inr bs
         \<and> read_wav bs = Some \<lparr>channels = 1, bits = 16, rate = 24000, frames = 1\<rparr>)"
proof -
  have h: "(0::int) < 2 ^ 31" "length [1 / 4 :: real] < 2 ^ 31 - 18" "(0::int) \<le> 0"
    by simp_all
  have n: "(if (0::int) \<le> 0 then 24000 else nat 0) = 24000" "length [1 / 4 :: real] = 1"
    by simp_all
  show ?thesis
    using encoder_total_within_header_range [of 0 "[1 / 4]"] h unfolding n by blast
qed

text \<open>
  The byte rate \<open>2 * 2 ^ 31\<close> does not fit the header's 32-bit field:
  \<^verbatim>\<open>struct.pack\<close> raises, also for an empty buffer.
\<close>

theorem encoder_total_counterexample:
  "wav_bytes_from_float32_mono [] 2147483648 = Inl struct_error_L"
  by (simp add: wav_bytes_from_float32_mono_def wave_write_mono16_def fits_L_def)

section \<open>The samples in the container\<close>

lemma length_pcm16: "length (pcm16 a) = length a"
  by (simp add: pcm16_def)

lemma wave_write_data:
  "wave_write_mono16 r pcm = Inr bs \<Longrightarrow> drop 44 bs = pcm \<and> length bs = 44 + length pcm"
  by (auto simp: wave_write_mono16_def Let_def length_le_bytes B_def split: if_splits)

lemma wav_bytes_data:
  assumes "wav_bytes_from_float32_mono audio sample_rate = Inr bs"
  shows "drop 44 bs = concat (map tobytes_int16 (pcm16 audio))"
    and "length bs = 44 + 2 * length audio"
proof -
  define pcm where "pcm = (if length audio = 0 then [] else concat (map tobytes_int16 (pcm16 audio)))"
  have p: "pcm = concat (map tobytes_int16 (pcm16 audio))"
    by (simp add: pcm_def pcm16_def)
  from assms have "wave_write_mono16 (if sample_rate \<le> 0 then 24000 else sample_rate) pcm = Inr bs"
    by (simp add: wav_bytes_from_float32_mono_def pcm_def Let_def)
  from wave_write_data [OF this] show "drop 44 bs = concat (map tobytes_int16 (pcm16 audio))"
    and "length bs = 44 + 2 * length audio"
    unfolding p by (simp_all add: length_tobytes length_pcm16)
qed

lemma sample_bytes:
  "i < length ws \<Longrightarrow> take 2 (drop (2 * i) (concat (map tobytes_int16 ws))) = tobytes_int16 (ws ! i)"
proof (induction ws arbitrary: i)
  case Nil
  then show ?case by simp
next
  case (Cons w ws)
  show ?case
  proof (cases i)
    case 0
    then show ?thesis by (simp add: tobytes_int16_def)
  next
    case (Suc j)
    with Cons.prems have "j < length ws" by simp
    from Cons.IH [OF this] Suc show ?thesis by (simp add: tobytes_int16_def)
  qed
qed

lemma wav_bytes_sample:
  assumes "wav_bytes_from_float32_mono audio sample_rate = Inr bs" "i < length audio"
  shows "field bs (44 + 2 * i) 2 = tobytes_int16 (pcm16 audio ! i)"
proof -
  have "field bs (44 + 2 * i) 2 = take 2 (drop (2 * i) (drop 44 bs))"
    by (simp add: field_def add.commute)
  with wav_bytes_data(1) [OF assms(1)] sample_bytes [of i "pcm16 audio"] assms(2)
  show ?thesis by (simp add: length_pcm16)
qed

lemma le_nat_tobytes: "le_nat (tobytes_int16 w) = unat w"
proof -
  have "unat (ucast w :: 8 word) = unat w mod 256"
    by (simp add: unsigned_ucast_eq take_bit_eq_mod)
  moreover have "unat (ucast (drop_bit 8 w) :: 8 word) = unat w div 256 mod 256"
    by (simp add: unsigned_ucast_eq take_bit_eq_mod unat_drop_bit_eq drop_bit_eq_div unat_div_distrib)
  moreover have "unat w < 65536" using unsigned_less [of w, where ?'a = nat] by simp
  ultimately show ?thesis by (simp add: tobytes_int16_def)
qed

lemma pcm16_examples:
  "pcm16 [3 / 2, - 2, 1 / 4] = [word_of_int 32767, word_of_int (- 32767), word_of_int 8191]"
  "pcm16 [1 / 4] = [word_of_int 8191]"
proof -
  have x: "(1::real) \<le> 3 / 2" "(- 2 :: real) \<le> - 1" by simp_all
  show "pcm16 [3 / 2, - 2, 1 / 4] = [word_of_int 32767, word_of_int (- 32767), word_of_int 8191]"
    unfolding pcm16_def astype_int16_def
    using quantize_hi [OF x(1)] quantize_lo [OF x(2)] quantize_quarter by simp
  show "pcm16 [1 / 4] = [word_of_int 8191]"
    unfolding pcm16_def astype_int16_def using quantize_quarter by simp
qed

lemma tobytes_examples:
  "tobytes_int16 32767 = [255, 127]"
  "tobytes_int16 (- 32767) = [1, 128]"
  "tobytes_int16 8191 = [255, 31]"
  "tobytes_int16 8192 = [0, 32]"
  by (simp_all add: tobytes_int16_def)

text \<open>
  Claim C5, as the code has it. Within the range of the container's header the encoder
  returns the bytes of a container whose data, after the 44 bytes of the header, are
  two bytes for each sample, in order: the two bytes of sample \<open>i\<close> are the 16-bit
  integer made from that sample alone, low byte first. The sample is clipped to
  \<open>[-1, 1]\<close>, multiplied by 32767 in float32 (the product \<open>p\<close> is within \<open>1 / 1024\<close> of
  the exact one) and converted to a 16-bit signed integer \<open>q\<close> by discarding the
  fraction of \<open>p\<close>: \<open>q\<close> lies between 0 and \<open>p\<close>, less than 1 away from it, and fits in
  16 bits without wrapping. Samples of 1 and above give 32767, samples of -1 and below
  give -32767. The conversion truncates every value; it does not round to the nearest
  integer.
\<close>

theorem encoder_truncates_each_sample:
  "(sample_rate < 2 ^ 31 \<and> length audio < 2 ^ 31 - 18 \<longrightarrow>
      (\<exists>bs. wav_bytes_from_float32_mono audio sample_rate = Inr bs))
   \<and> (wav_bytes_from_float32_mono audio sample_rate = Inr bs \<longrightarrow>
        length bs = 44 + 2 * length audio
        \<and> drop 44 bs = concat (map tobytes_int16 (pcm16 audio))
        \<and> (\<forall>i < length audio.
              field bs (44 + 2 * i) 2 = tobytes_int16 (pcm16 audio ! i)
              \<and> le_nat (field bs (44 + 2 * i) 2) = unat (pcm16 audio ! i)
              \<and> sint (pcm16 audio ! i)
                  = c_trunc (f32_mul (np_clip (audio ! i) (- 1) 1) 32767)))
   \<and> (let p = f32_mul (np_clip x (- 1) 1) 32767; q = c_trunc p in
        \<bar>p - np_clip x (- 1) 1 * 32767\<bar> \<le> 1 / 1024
        \<and> - 32767 \<le> q \<and> q \<le> 32767
        \<and> \<bar>of_int q\<bar> \<le> \<bar>p\<bar> \<and> \<bar>p\<bar> < \<bar>of_int q\<bar> + 1
        \<and> (0 \<le> p \<longrightarrow> 0 \<le> q) \<and> (p \<le> 0 \<longrightarrow> q \<le> 0)
        \<and> (1 \<le> x \<longrightarrow> q = 32767) \<and> (x \<le> - 1 \<longrightarrow> q = - 32767))"
proof -
  have a: "sample_rate < 2 ^ 31 \<and> length audio < 2 ^ 31 - 18 \<longrightarrow>
      (\<exists>bs. wav_bytes_from_float32_mono audio sample_rate = Inr bs)"
    using wav_bytes_valid [of sample_rate audio] by blast
  have b: "wav_bytes_from_float32_mono audio sample_rate = Inr bs \<longrightarrow>
        length bs = 44 + 2 * length audio
        \<and> drop 44 bs = concat (map tobytes_int16 (pcm16 audio))
        \<and> (\<forall>i < length audio.
              field bs (44 + 2 * i) 2 = tobytes_int16 (pcm16 audio ! i)
              \<and> le_nat (field bs (44 + 2 * i) 2) = unat (pcm16 audio ! i)
              \<and> sint (pcm16 audio ! i)
                  = c_trunc (f32_mul (np_clip (audio ! i) (- 1) 1) 32767))"
  proof
    assume w: "wav_bytes_from_float32_mono audio sample_rate = Inr bs"
    have "\<forall>i < length audio.
              field bs (44 + 2 * i) 2 = tobytes_int16 (pcm16 audio ! i)
              \<and> le_nat (field bs (44 + 2 * i) 2) = unat (pcm16 audio ! i)
              \<and> sint (pcm16 audio ! i)
                  = c_trunc (f32_mul (np_clip (audio ! i) (- 1) 1) 32767)"
    proof (intro allI impI)
      fix i assume i: "i < length audio"
      from wav_bytes_sample [OF w i] pcm16_truncates [of audio 0] i
      show "field bs (44 + 2 * i) 2 = tobytes_int16 (pcm16 audio ! i)
              \<and> le_nat (field bs (44 + 2 * i) 2) = unat (pcm16 audio ! i)
              \<and> sint (pcm16 audio ! i)
                  = c_trunc (f32_mul (np_clip (audio ! i) (- 1) 1) 32767)"
        by (simp add: le_nat_tobytes)
    qed
    with wav_bytes_data [OF w]
    show "length bs = 44 + 2 * length audio
        \<and> drop 44 bs = concat (map tobytes_int16 (pcm16 audio))
        \<and> (\<forall>i < length audio.
              field bs (44 + 2 * i) 2 = tobytes_int16 (pcm16 audio ! i)
              \<and> le_nat (field bs (44 + 2 * i) 2) = unat (pcm16 audio ! i)
              \<and> sint (pcm16 audio ! i)
                  = c_trunc (f32_mul (np_clip (audio ! i) (- 1) 1) 32767))"
      by blast
  qed
  have c: "let p = f32_mul (np_clip x (- 1) 1) 32767; q = c_trunc p in
        \<bar>p - np_clip x (- 1) 1 * 32767\<bar> \<le> 1 / 1024
        \<and> - 32767 \<le> q \<and> q \<le> 32767
        \<and> \<bar>of_int q\<bar> \<le> \<bar>p\<bar> \<and> \<bar>p\<bar> < \<bar>of_int q\<bar> + 1
        \<and> (0 \<le> p \<longrightarrow> 0 \<le> q) \<and> (p \<le> 0 \<longrightarrow> q \<le> 0)
        \<and> (1 \<le> x \<longrightarrow> q = 32767) \<and> (x \<le> - 1 \<longrightarrow> q = - 32767)"
    using pcm16_truncates [of audio x] by blast
  from a b c show ?thesis by blast
qed

theorem encoder_truncates_each_sample_witness:
  "\<exists>bs. wav_bytes_from_float32_mono [3 / 2, - 2, 1 / 4] 24000 = Inr bs
      \<and> length bs = 50
      \<and> drop 44 bs = [255, 127, 1, 128, 255, 31]
      \<and> map sint (pcm16 [3 / 2, - 2, 1 / 4]) = [32767, - 32767, 8191]"
proof -
  let ?a = "[3 / 2, - 2, 1 / 4 :: real]"
  have h: "(24000 :: int) < 2 ^ 31 \<and> length ?a < 2 ^ 31 - 18" by simp
  with encoder_truncates_each_sample [of 24000 ?a "[]" 0]
  obtain bs where w: "wav_bytes_from_float32_mono ?a 24000 = Inr bs" by blast
  with encoder_truncates_each_sample [of 24000 ?a bs 0]
  have l: "length bs = 44 + 2 * length ?a"
    and d: "drop 44 bs = concat (map tobytes_int16 (pcm16 ?a))" by blast+
  from d have d': "drop 44 bs = [255, 127, 1, 128, 255, 31]"
    unfolding pcm16_examples by (simp add: tobytes_examples)
  have s: "map sint (pcm16 ?a) = [32767, - 32767, 8191]"
    unfolding pcm16_examples by (simp add: sint16)
  from w l d' s show ?thesis by simp
qed

text \<open>
  The sample \<open>1 / 4\<close> and its product \<open>8191.75\<close> are exact in float32. The container
  holds the two bytes of 8191; rounding to the nearest integer, ties toward zero, gives
  8192, whose bytes are different.
\<close>

theorem encoder_rounds_counterexample:
  "(\<exists>bs. wav_bytes_from_float32_mono [1 / 4] 24000 = Inr bs
       \<and> drop 44 bs = [255, 31] \<and> le_nat (drop 44 bs) = 8191)
   \<and> map sint (pcm16 [1 / 4]) = [8191]
   \<and> round_half_toward_zero (np_clip (1 / 4) (- 1) 1 * 32767) = 8192
   \<and> tobytes_int16 8192 = [0, 32]"
proof -
  have "(24000 :: int) < 2 ^ 31" "length [1 / 4 :: real] < 2 ^ 31 - 18" by simp_all
  from wav_bytes_valid [OF this]
  obtain bs where w: "wav_bytes_from_float32_mono [1 / 4] 24000 = Inr bs" by blast
  from wav_bytes_data(1) [OF w] have d: "drop 44 bs = [255, 31]"
    unfolding pcm16_examples by (simp add: tobytes_examples)
  then have n: "le_nat (drop 44 bs) = 8191" by simp
  have s: "map sint (pcm16 [1 / 4]) = [8191]"
    unfolding pcm16_examples by (simp add: sint16)
  have r: "round_half_toward_zero (np_clip (1 / 4) (- 1) 1 * 32767) = 8192"
    by (simp add: np_clip_def round_half_toward_zero_def)
  from w d n s r tobytes_examples(4) show ?thesis by blast
qed

section \<open>The text of a response is a JSON object\<close>

lemma is_hex_hexdig: "d < 16 \<Longrightarrow> is_hex (hexdig d)"
  by (auto simp: is_hex_def is_digit_def hexdig_def)

lemma run_hex4: "foldl jstep (JHex k 4) (hex4 n) = JInStr k"
  by (simp add: hex4_def is_hex_hexdig)

lemma run_escape_char: "foldl jstep (JInStr k) (escape_char c) = JInStr k"
  by (simp add: escape_char_def run_hex4)

lemma run_escape_body: "foldl jstep (JInStr k) (concat (map escape_char s)) = JInStr k"
  by (induction s) (simp_all add: run_escape_char)

lemma run_dumps_str_key:
  "st = JFirst \<or> st = JKey \<Longrightarrow> foldl jstep st (dumps_str s) = JColon"
  by (auto simp: dumps_str_def run_escape_body is_ws_def)

lemma run_dumps_str_value: "foldl jstep JValue (dumps_str s) = JAfter"
  by (simp add: dumps_str_def run_escape_body is_ws_def)

lemma digits_simps1: "n < 10 \<Longrightarrow> digits n = [48 + n]"
  by (subst digits.simps) simp

lemma digits_simps2: "\<not> n < 10 \<Longrightarrow> digits n = digits (n div 10) @ [48 + n mod 10]"
  by (subst digits.simps) simp

lemma run_digits:
  "0 < n \<Longrightarrow> st = JValue \<or> st = JMinus \<Longrightarrow> foldl jstep st (digits n) = JDigits"
proof (induction n rule: digits.induct)
  case (1 n)
  show ?case
  proof (cases "n < 10")
    case True
    with "1.prems" show ?thesis
      by (auto simp: digits_simps1 is_digit_def is_ws_def)
  next
    case False
    then have "0 < n div 10" by simp
    with "1.IH" False "1.prems" have "foldl jstep st (digits (n div 10)) = JDigits" by simp
    moreover have "n mod 10 \<le> 9" by simp
    ultimately show ?thesis using False
      by (simp add: digits_simps2 is_digit_def)
  qed
qed

lemma run_str_int: "value_done (foldl jstep JValue (str_int i))"
proof -
  consider "i < 0" | "i = 0" | "0 < i" by linarith
  then show ?thesis
  proof cases
    case 1
    then have "0 < nat (- i)" by simp
    then have "foldl jstep JMinus (digits (nat (- i))) = JDigits" by (simp add: run_digits)
    with 1 show ?thesis by (simp add: str_int_def value_done_def is_ws_def)
  next
    case 2
    then show ?thesis by (simp add: str_int_def value_done_def digits_simps1 is_ws_def)
  next
    case 3
    then have "foldl jstep JValue (digits (nat i)) = JDigits" by (simp add: run_digits)
    with 3 show ?thesis by (simp add: str_int_def value_done_def)
  qed
qed

lemma run_dumps_value: "value_done (foldl jstep JValue (dumps_value v))"
proof (cases v)
  case (RStr s)
  then show ?thesis by (simp add: run_dumps_str_value value_done_def)
next
  case (RBool b)
  then show ?thesis by (simp add: value_done_def S_def is_ws_def)
next
  case (RInt i)
  then show ?thesis by (simp add: run_str_int)
qed

lemma run_item:
  assumes "st = JFirst \<or> st = JKey"
  shows "value_done (foldl jstep st (dumps_str k @ S '': '' @ dumps_value v))"
proof -
  have "foldl jstep st (dumps_str k @ S '': '' @ dumps_value v)
        = foldl jstep (foldl jstep (foldl jstep st (dumps_str k)) (S '': '')) (dumps_value v)"
    by simp
  also have "\<dots> = foldl jstep JValue (dumps_value v)"
    using assms by (simp add: run_dumps_str_key S_def is_ws_def)
  finally show ?thesis by (simp add: run_dumps_value)
qed

lemma run_separator: "value_done st \<Longrightarrow> foldl jstep st (S '', '') = JKey"
  by (auto simp: value_done_def S_def after_value_def is_ws_def is_digit_def)

lemma run_dumps_items:
  "kvs \<noteq> [] \<Longrightarrow> st = JFirst \<or> st = JKey \<Longrightarrow> value_done (foldl jstep st (dumps_items kvs))"
proof (induction kvs arbitrary: st rule: dumps_items.induct)
  case 1
  then show ?case by simp
next
  case (2 k v)
  then show ?case using run_item [of st k v] by simp
next
  case (3 k v x xs)
  have "foldl jstep st (dumps_items ((k, v) # x # xs))
        = foldl jstep (foldl jstep (foldl jstep st (dumps_str k @ S '': '' @ dumps_value v)) (S '', ''))
            (dumps_items (x # xs))"
    by simp
  also have "\<dots> = foldl jstep JKey (dumps_items (x # xs))"
    using run_item [OF "3.prems"(2), of k v] run_separator by simp
  finally show ?case using "3.IH" [of JKey] by simp
qed

lemma json_dumps_ok: "json_object_ok (json_dumps resp)"
proof (cases "resp = []")
  case True
  then show ?thesis by (simp add: json_object_ok_def json_dumps_def S_def is_ws_def)
next
  case False
  have "foldl jstep JStart (json_dumps resp)
        = foldl jstep (foldl jstep JFirst (dumps_items resp)) (S ''}'')"
    by (simp add: json_dumps_def S_def is_ws_def)
  moreover have "value_done (foldl jstep JFirst (dumps_items resp))"
    using False by (simp add: run_dumps_items)
  ultimately show ?thesis
    by (auto simp: json_object_ok_def value_done_def S_def after_value_def is_ws_def is_digit_def)
qed

section \<open>The engine pool keeps its invariant\<close>

lemma instances_append: "instances (xs @ ys) = instances xs @ instances ys"
  by (simp add: instances_def)

lemma map_of_snoc_fresh:
  "map_of xs k = None \<Longrightarrow> map_of (xs @ [(k, v)]) = (map_of xs)(k \<mapsto> v)"
  by (rule ext) (auto simp: map_of_append map_add_def split: option.splits)

lemma distinct_snoc_fresh:
  "distinct (map fst xs) \<Longrightarrow> map_of xs k = None \<Longrightarrow> distinct (map fst (xs @ [(k, v)]))"
  by (auto simp: map_of_eq_None_iff)

lemma get_pipeline_cached:
  "pipelines s (norm_lang l) = Some p \<Longrightarrow> get_pipeline env s l = (Inr p, s)"
  by (simp add: get_pipeline_def)

lemma get_pipeline_json_out: "get_pipeline env s l = (r, s') \<Longrightarrow> json_out s' = json_out s"
  by (auto simp: get_pipeline_def Let_def split: option.splits sum.splits if_splits)

lemma get_pipeline_keeps:
  "get_pipeline env s l = (r, s') \<Longrightarrow> pipelines s \<subseteq>\<^sub>m pipelines s'"
  by (auto simp: get_pipeline_def Let_def map_le_def split: option.splits sum.splits if_splits)

lemma get_pipeline_calls:
  "get_pipeline env s l = (r, s') \<Longrightarrow> \<exists>new. calls s' = calls s @ new"
  by (auto simp: get_pipeline_def Let_def split: option.splits sum.splits if_splits)

lemma pool_inv_add:
  assumes "pool_inv s" "pipelines s k = None" "instances new = [(k, p)]"
  shows "pool_inv (s\<lparr>calls := calls s @ new, pipelines := (pipelines s)(k \<mapsto> p)\<rparr>)"
proof -
  from assms have fresh: "map_of (instances (calls s)) k = None"
    and d: "distinct (map fst (instances (calls s)))"
    and m: "map_of (instances (calls s)) = pipelines s"
    by (simp_all add: pool_inv_def)
  show ?thesis
    using map_of_snoc_fresh [OF fresh, of p] distinct_snoc_fresh [OF d fresh, of p] m assms(3)
    by (simp add: pool_inv_def instances_append)
qed

lemma pool_inv_log:
  assumes "pool_inv s" "instances new = []"
  shows "pool_inv (s\<lparr>calls := calls s @ new\<rparr>)"
  using assms by (simp add: pool_inv_def instances_append)

lemma get_pipeline_inv:
  assumes "get_pipeline env s l = (r, s')" "pool_inv s"
  shows "pool_inv s'"
proof (cases "pipelines s (norm_lang l)")
  case (Some p)
  with assms show ?thesis by (simp add: get_pipeline_cached)
next
  case None
  define k where "k = norm_lang l"
  define r2 where "r2 = KPipeline2 env (calls s) k"
  note None' = None [folded k_def]
  show ?thesis
  proof (cases r2)
    case (Inr p)
    then have "s' = s\<lparr>calls := calls s @ [Construct2 k (Inr p)], pipelines := (pipelines s)(k \<mapsto> p)\<rparr>"
      using assms(1) None' by (auto simp: get_pipeline_def Let_def k_def [symmetric] r2_def [symmetric])
    then show ?thesis
      using pool_inv_add [OF assms(2) None', of "[Construct2 k (Inr p)]" p]
      by (simp add: instances_def)
  next
    case (Inl e)
    show ?thesis
    proof (cases "exc_cls e = TypeError")
      case False
      then have "s' = s\<lparr>calls := calls s @ [Construct2 k (Inl e)]\<rparr>"
        using assms(1) None' Inl
        by (auto simp: get_pipeline_def Let_def k_def [symmetric] r2_def [symmetric])
      then show ?thesis
        using pool_inv_log [OF assms(2), of "[Construct2 k (Inl e)]"] by (simp add: instances_def)
    next
      case True
      show ?thesis
      proof (cases "KPipeline1 env (calls s @ [Construct2 k (Inl e)]) k")
        case (Inr p)
        then have "s' = s\<lparr>calls := calls s @ [Construct2 k (Inl e), Construct1 k (Inr p)],
                     pipelines := (pipelines s)(k \<mapsto> p)\<rparr>"
          using assms(1) None' Inl True
          by (auto simp: get_pipeline_def Let_def k_def [symmetric] r2_def [symmetric])
        then show ?thesis
          using pool_inv_add [OF assms(2) None', of "[Construct2 k (Inl e), Construct1 k (Inr p)]" p]
          by (simp add: instances_def)
      next
        case (Inl e1)
        then have "s' = s\<lparr>calls := calls s @ [Construct2 k (Inl e), Construct1 k (Inl e1)]\<rparr>"
          using assms(1) None' \<open>r2 = Inl e\<close> True
          by (auto simp: get_pipeline_def Let_def k_def [symmetric] r2_def [symmetric])
        then show ?thesis
          using pool_inv_log [OF assms(2), of "[Construct2 k (Inl e), Construct1 k (Inl e1)]"]
          by (simp add: instances_def)
      qed
    qed
  qed
qed

lemma get_pipeline_stored:
  "get_pipeline env s l = (Inr p, s') \<Longrightarrow> pipelines s' (norm_lang l) = Some p"
  by (auto simp: get_pipeline_def Let_def split: option.splits sum.splits if_splits)

lemma get_pipeline_failed:
  "get_pipeline env s l = (Inl e, s') \<Longrightarrow>
     pipelines s' = pipelines s \<and> pipelines s' (norm_lang l) = None"
  by (auto simp: get_pipeline_def Let_def split: option.splits sum.splits if_splits)

section \<open>What one turn of the loop changes\<close>

lemma synthesize_props:
  assumes "synthesize env s rid text voice lang speed = (r, oc, s')"
  shows "r = rid" and "json_out s' = json_out s" and "oc \<noteq> Continued"
    and "pipelines s \<subseteq>\<^sub>m pipelines s'" and "pool_inv s \<Longrightarrow> pool_inv s'"
    and "\<And>resp. oc = Responded resp \<Longrightarrow> \<exists>a. resp = success_response rid a"
    and "\<exists>new. calls s' = calls s @ new"
proof -
  obtain r0 s1 where g: "get_pipeline env s lang = (r0, s1)" by (cases "get_pipeline env s lang")
  note j = get_pipeline_json_out [OF g] and k = get_pipeline_keeps [OF g]
    and i = get_pipeline_inv [OF g] and c = get_pipeline_calls [OF g]
  have s': "s' = s1 \<or> (\<exists>new. s' = s1\<lparr>calls := calls s1 @ new\<rparr> \<and> instances new = [])"
    using assms g
    by (auto simp: synthesize_def Let_def instances_def split: sum.splits)
  show "r = rid" using assms g by (auto simp: synthesize_def Let_def split: sum.splits)
  show "oc \<noteq> Continued" using assms g by (auto simp: synthesize_def Let_def split: sum.splits)
  show "\<And>resp. oc = Responded resp \<Longrightarrow> \<exists>a. resp = success_response rid a"
    using assms g by (auto simp: synthesize_def Let_def split: sum.splits)
  show "json_out s' = json_out s" using s' j by auto
  show "pipelines s \<subseteq>\<^sub>m pipelines s'" using s' k by auto
  show "pool_inv s \<Longrightarrow> pool_inv s'" using s' i pool_inv_log by auto
  show "\<exists>new. calls s' = calls s @ new" using s' c by auto
qed

lemma handle_request_cases:
  assumes "handle_request env s d = (r, oc, s')"
  shows "(oc = Continued \<and> s' = write_response s (success_response r []))
         \<or> (oc \<noteq> Continued \<and> json_out s' = json_out s \<and> pipelines s \<subseteq>\<^sub>m pipelines s'
             \<and> (pool_inv s \<longrightarrow> pool_inv s') \<and> (\<exists>new. calls s' = calls s @ new))"
proof (cases "py_float env (py_or (dict_get d (S ''speed'')) (JFloat (Finite 1)))")
  case (Inl e)
  with assms show ?thesis by (auto simp: handle_request_def Let_def)
next
  case sp: (Inr speed0)
  show ?thesis
  proof (cases "str_field env d (S ''text'') [] = []")
    case True
    with assms sp show ?thesis by (auto simp: handle_request_def Let_def)
  next
    case False
    with assms sp obtain rid t v l where
      "synthesize env s rid t v l (clamp_speed speed0) = (r, oc, s')"
      by (auto simp: handle_request_def Let_def)
    from synthesize_props [OF this] show ?thesis by blast
  qed
qed

lemma try_body_cases:
  assumes "try_body env s line = (r, oc, s')"
  shows "(oc = Continued \<and> s' = write_response s (success_response r []))
         \<or> (oc \<noteq> Continued \<and> json_out s' = json_out s \<and> pipelines s \<subseteq>\<^sub>m pipelines s'
             \<and> (pool_inv s \<longrightarrow> pool_inv s') \<and> (\<exists>new. calls s' = calls s @ new))"
proof (cases "json_loads env line")
  case (Inl e)
  with assms show ?thesis by (auto simp: try_body_def)
next
  case (Inr req)
  show ?thesis
  proof (cases "\<exists>d. req = JObj d")
    case False
    with assms Inr show ?thesis by (cases req) (auto simp: try_body_def)
  next
    case True
    then obtain d where d: "req = JObj d" by blast
    with assms Inr have "handle_request env s d = (r, oc, s')" by (simp add: try_body_def)
    then show ?thesis by (rule handle_request_cases)
  qed
qed

lemma process_line_blank: "py_strip raw = [] \<Longrightarrow> process_line env s raw = s"
  by (simp add: process_line_def)

lemma process_line_cases:
  assumes "py_strip raw \<noteq> []"
  shows "\<exists>resp s1. process_line env s raw = write_response s1 resp
           \<and> json_out s1 = json_out s \<and> pipelines s \<subseteq>\<^sub>m pipelines s1
           \<and> (pool_inv s \<longrightarrow> pool_inv s1) \<and> (\<exists>new. calls s1 = calls s @ new)"
proof -
  obtain r oc s' where t: "try_body env s (py_strip raw) = (r, oc, s')"
    by (cases "try_body env s (py_strip raw)")
  from try_body_cases [OF t] show ?thesis
  proof
    assume "oc = Continued \<and> s' = write_response s (success_response r [])"
    with assms t have "process_line env s raw = write_response s (success_response r [])"
      by (simp add: process_line_def)
    then show ?thesis by (intro exI [of _ "success_response r []"] exI [of _ s]) simp
  next
    assume a: "oc \<noteq> Continued \<and> json_out s' = json_out s \<and> pipelines s \<subseteq>\<^sub>m pipelines s'
             \<and> (pool_inv s \<longrightarrow> pool_inv s') \<and> (\<exists>new. calls s' = calls s @ new)"
    then obtain resp where "process_line env s raw = write_response s' resp"
      using assms t by (cases oc) (auto simp: process_line_def)
    with a show ?thesis by blast
  qed
qed

lemma write_response_fields [simp]:
  "json_out (write_response s resp) = json_out s @ [json_dumps resp @ [10]]"
  "pipelines (write_response s resp) = pipelines s"
  "calls (write_response s resp) = calls s"
  by (simp_all add: write_response_def)

lemma pool_inv_write [simp]: "pool_inv (write_response s resp) = pool_inv s"
  by (simp add: pool_inv_def)

section \<open>One line of printable ASCII per request\<close>

lemma hexdig_printable: "d < 16 \<Longrightarrow> 32 \<le> hexdig d \<and> hexdig d \<le> 126"
  by (simp add: hexdig_def)

lemma hex4_printable: "c \<in> set (hex4 n) \<Longrightarrow> 32 \<le> c \<and> c \<le> 126"
  using hexdig_printable [of "n div 4096 mod 16"] hexdig_printable [of "n div 256 mod 16"]
    hexdig_printable [of "n div 16 mod 16"] hexdig_printable [of "n mod 16"]
  by (auto simp: hex4_def)

lemma escape_char_printable: "c \<in> set (escape_char x) \<Longrightarrow> 32 \<le> c \<and> c \<le> 126"
  using hex4_printable [of c]
  by (auto simp: escape_char_def split: if_splits)

lemma dumps_str_printable: "c \<in> set (dumps_str s) \<Longrightarrow> 32 \<le> c \<and> c \<le> 126"
  using escape_char_printable [of c] by (auto simp: dumps_str_def)

lemma digits_printable: "c \<in> set (digits n) \<Longrightarrow> 32 \<le> c \<and> c \<le> 126"
proof (induction n rule: digits.induct)
  case (1 n)
  show ?case
  proof (cases "n < 10")
    case True
    with "1.prems" show ?thesis by (simp add: digits_simps1)
  next
    case False
    have "n mod 10 \<le> 9" by simp
    with False "1.prems" "1.IH" show ?thesis
      by (auto simp: digits_simps2)
  qed
qed

lemma dumps_value_printable: "c \<in> set (dumps_value v) \<Longrightarrow> 32 \<le> c \<and> c \<le> 126"
  using dumps_str_printable [of c] digits_printable [of c]
  by (cases v) (auto simp: S_def str_int_def split: if_splits)

lemma dumps_items_printable: "c \<in> set (dumps_items kvs) \<Longrightarrow> 32 \<le> c \<and> c \<le> 126"
proof (induction kvs rule: dumps_items.induct)
  case 1
  then show ?case by simp
next
  case (2 k v)
  then show ?case
    using dumps_str_printable [of c k] dumps_value_printable [of c v] by (auto simp: S_def)
next
  case (3 k v x xs)
  then show ?case
    using dumps_str_printable [of c k] dumps_value_printable [of c v] by (auto simp: S_def)
qed

lemma json_dumps_printable: "c \<in> set (json_dumps resp) \<Longrightarrow> 32 \<le> c \<and> c \<le> 126"
  using dumps_items_printable [of c resp] by (auto simp: json_dumps_def S_def)

lemma json_dumps_no_newline: "10 \<notin> set (json_dumps resp)"
  using json_dumps_printable [of 10 resp] by auto

lemma protocol_line_dumps: "protocol_line_ok (json_dumps resp @ [10])"
  by (simp add: protocol_line_ok_def json_dumps_ok json_dumps_no_newline)

lemma process_line_out:
  "py_strip raw \<noteq> [] \<Longrightarrow>
     \<exists>resp. json_out (process_line env s raw) = json_out s @ [json_dumps resp @ [10]]"
  using process_line_cases [of raw env s] by auto

lemma main_loop_out:
  "\<exists>new. json_out (main_loop env s raws) = json_out s @ new
     \<and> length new = length (filter (\<lambda>raw. py_strip raw \<noteq> []) raws)
     \<and> (\<forall>l \<in> set new. protocol_line_ok l)"
proof (induction raws arbitrary: s)
  case Nil
  show ?case by simp
next
  case (Cons raw raws)
  from Cons.IH [of "process_line env s raw"] obtain new where
    n: "json_out (main_loop env (process_line env s raw) raws) = json_out (process_line env s raw) @ new"
      "length new = length (filter (\<lambda>raw. py_strip raw \<noteq> []) raws)"
      "\<forall>l \<in> set new. protocol_line_ok l"
    by blast
  show ?case
  proof (cases "py_strip raw = []")
    case True
    with n show ?thesis by (simp add: process_line_blank)
  next
    case False
    from process_line_out [OF False, of env s] obtain resp where
      "json_out (process_line env s raw) = json_out s @ [json_dumps resp @ [10]]" by blast
    with n False show ?thesis
      by (intro exI [of _ "(json_dumps resp @ [10]) # new"]) (simp add: protocol_line_dumps)
  qed
qed

text \<open>
  Claim C1. A line that is empty after \<^verbatim>\<open>strip()\<close> writes nothing. Any other line
  writes exactly one string to the protocol channel: \<^verbatim>\<open>json.dumps\<close> of one response
  dict, which is one well-formed JSON object without a newline inside, followed by one
  newline. Over a whole input the channel receives one such line per line that is not
  blank, and nothing else.
\<close>

theorem one_json_line_per_request:
  "(py_strip raw = [] \<longrightarrow> json_out (process_line env s raw) = json_out s)
   \<and> (py_strip raw \<noteq> [] \<longrightarrow>
        (\<exists>resp. json_out (process_line env s raw) = json_out s @ [json_dumps resp @ [10]]
           \<and> json_object_ok (json_dumps resp) \<and> 10 \<notin> set (json_dumps resp)))
   \<and> (\<exists>new. json_out (main_loop env s raws) = json_out s @ new
         \<and> length new = length (filter (\<lambda>raw. py_strip raw \<noteq> []) raws)
         \<and> (\<forall>l \<in> set new. protocol_line_ok l))"
  using process_line_blank [of raw env s] process_line_out [of raw env s]
    main_loop_out [of env s raws] json_dumps_ok json_dumps_no_newline
  by auto

lemma py_strip_Nil: "py_strip [] = []"
  by (simp add: py_strip_def)

lemma strip_blank: "py_strip (S ''   '' @ [10]) = []"
  by (simp add: py_strip_def py_isspace_def S_def)

lemma strip_line1: "py_strip (line1 @ [10]) = line1"
  by (simp add: py_strip_def py_isspace_def S_def line1_def)

lemma loads_line1:
  "json_loads stub_env line1
   = Inr (JObj [(S ''id'', JStr (S ''1'')), (S ''text'', JStr []), (S ''voice'', JStr (S ''x''))])"
  by (simp add: stub_env_def stub_loads_def stub_lines_def line1_def S_def)

lemma process_line1:
  "process_line stub_env s (line1 @ [10]) = write_response s (success_response (S ''1'') [])"
proof -
  have "line1 \<noteq> []" by (simp add: line1_def S_def)
  then show ?thesis
    by (simp add: process_line_def strip_line1 try_body_def handle_request_def loads_line1 Let_def dict_get_def
        py_or_def str_field_def py_strip_Nil S_def)
qed

lemma dumps_success1:
  \<open>json_dumps (success_response (S ''1'') [])
   = S ''{"id": "1", "ok": true, "format": "wav_24000", "sample_rate": 24000, "audio_base64": ""}''\<close>
  by (simp add: json_dumps_def success_response_def dumps_str_def escape_char_def str_int_def
      digits_simps1 digits_simps2 S_def)

theorem one_json_line_per_request_witness:
  \<open>py_strip (S ''   '' @ [10]) = []
   \<and> json_out (process_line stub_env init_state (S ''   '' @ [10])) = []
   \<and> py_strip (line1 @ [10]) \<noteq> []
   \<and> json_out (main_loop stub_env init_state [S ''   '' @ [10], line1 @ [10]])
       = [S ''{"id": "1", "ok": true, "format": "wav_24000", "sample_rate": 24000, "audio_base64": ""}'' @ [10]]
   \<and> protocol_line_ok
        (S ''{"id": "1", "ok": true, "format": "wav_24000", "sample_rate": 24000, "audio_base64": ""}'' @ [10])\<close>
proof -
  let ?blank = "S ''   '' @ [10]"
  let ?raws = "[?blank, line1 @ [10]]"
  note t = one_json_line_per_request [of ?blank stub_env init_state ?raws]
  have b: "py_strip ?blank = []" by (rule strip_blank)
  have n: "py_strip (line1 @ [10]) \<noteq> []" unfolding strip_line1 by (simp add: line1_def S_def)
  have i: "json_out (init_state :: nat state) = []" by (simp add: init_state_def)
  from t b i have o: "json_out (process_line stub_env init_state ?blank) = []" by simp
  have m: "json_out (main_loop stub_env init_state ?raws)
           = [json_dumps (success_response (S ''1'') []) @ [10]]"
    by (simp add: process_line_blank [OF b] process_line1 i)
  from t [THEN conjunct2, THEN conjunct2] obtain new where
    n1: "json_out (main_loop stub_env init_state ?raws) = json_out (init_state :: nat state) @ new"
    and n2: "\<forall>l \<in> set new. protocol_line_ok l" by blast
  from n1 m i have "new = [json_dumps (success_response (S ''1'') []) @ [10]]"
    by (metis append_Nil)
  with n2 have "protocol_line_ok (json_dumps (success_response (S ''1'') []) @ [10])" by simp
  with b o n m show ?thesis unfolding dumps_success1 by simp
qed

section \<open>The id of the response\<close>

lemma synthesize_rid: "fst (synthesize env s rid t v l sp) = rid"
  using synthesize_props(1) [of env s rid t v l sp
      "fst (synthesize env s rid t v l sp)" "fst (snd (synthesize env s rid t v l sp))"
      "snd (snd (synthesize env s rid t v l sp))"]
  by simp

lemma rid_of_dict:
  "py_str env (py_or (dict_get d (S ''id'')) (JStr []))
   = (case map_of d (S ''id'') of None \<Rightarrow> [] | Some v \<Rightarrow> if truthy v then py_str env v else [])"
  by (simp add: dict_get_def py_or_def split: option.splits)

lemma handle_request_rid:
  "fst (handle_request env s d) = py_str env (py_or (dict_get d (S ''id'')) (JStr []))"
  by (simp add: handle_request_def Let_def synthesize_rid split: sum.splits)

lemma try_body_rid: "fst (try_body env s line) = best_id env line"
proof (cases "json_loads env line")
  case (Inl e)
  then show ?thesis by (simp add: try_body_def best_id_def)
next
  case (Inr req)
  then show ?thesis
    by (cases req) (simp_all add: try_body_def best_id_def handle_request_rid rid_of_dict)
qed

lemma handle_request_responded:
  assumes "handle_request env s d = (r, Responded resp, s')"
  shows "\<exists>a. resp = success_response r a"
proof (cases "py_float env (py_or (dict_get d (S ''speed'')) (JFloat (Finite 1)))")
  case (Inl e)
  with assms show ?thesis by (auto simp: handle_request_def Let_def)
next
  case sp: (Inr speed0)
  show ?thesis
  proof (cases "str_field env d (S ''text'') [] = []")
    case True
    with assms sp show ?thesis by (auto simp: handle_request_def Let_def)
  next
    case False
    with assms sp obtain rid t v l where
      x: "synthesize env s rid t v l (clamp_speed speed0) = (r, Responded resp, s')"
      by (auto simp: handle_request_def Let_def)
    from synthesize_props(1) [OF x] synthesize_props(6) [OF x] show ?thesis by simp
  qed
qed

lemma try_body_responded:
  assumes "try_body env s line = (r, Responded resp, s')"
  shows "\<exists>a. resp = success_response r a"
proof (cases "json_loads env line")
  case (Inl e)
  with assms show ?thesis by (simp add: try_body_def)
next
  case (Inr req)
  with assms show ?thesis
    by (cases req) (auto simp: try_body_def dest: handle_request_responded)
qed

lemma process_line_raised:
  assumes "py_strip raw \<noteq> []" "try_body env s (py_strip raw) = (r, Raised exc, s')"
  shows "process_line env s raw = write_response s' (failure_response r exc)"
    and "json_out s' = json_out s"
  using assms try_body_cases [OF assms(2)] by (auto simp: process_line_def)

lemma process_line_id:
  assumes "py_strip raw \<noteq> []"
  shows "\<exists>resp. json_out (process_line env s raw) = json_out s @ [json_dumps resp @ [10]]
           \<and> map_of resp (S ''id'') = Some (RStr (best_id env (py_strip raw)))"
proof -
  obtain r oc s' where t: "try_body env s (py_strip raw) = (r, oc, s')"
    by (cases "try_body env s (py_strip raw)")
  then have r: "r = best_id env (py_strip raw)"
    using try_body_rid [of env s "py_strip raw"] by simp
  have ids: "map_of (success_response r a) (S ''id'') = Some (RStr r)"
    "map_of (failure_response r e) (S ''id'') = Some (RStr r)" for a e
    by (simp_all add: success_response_def failure_response_def)
  show ?thesis
  proof (cases oc)
    case Continued
    with try_body_cases [OF t] have "s' = write_response s (success_response r [])" by simp
    with t Continued assms have
      "json_out (process_line env s raw) = json_out s @ [json_dumps (success_response r []) @ [10]]"
      by (simp add: process_line_def)
    with ids r show ?thesis by blast
  next
    case (Responded resp)
    with try_body_responded t obtain a where a: "resp = success_response r a" by blast
    from try_body_cases [OF t] Responded have "json_out s' = json_out s" by simp
    with t Responded assms a have
      "json_out (process_line env s raw) = json_out s @ [json_dumps (success_response r a) @ [10]]"
      by (simp add: process_line_def)
    with ids r show ?thesis by blast
  next
    case (Raised exc)
    with t have t': "try_body env s (py_strip raw) = (r, Raised exc, s')" by simp
    from process_line_raised [OF assms t'] have
      "json_out (process_line env s raw) = json_out s @ [json_dumps (failure_response r exc) @ [10]]"
      by simp
    with ids r show ?thesis by blast
  qed
qed

text \<open>
  Claim C9. The one response written for a line that is not blank is a dict whose
  \<^verbatim>\<open>id\<close> is the best-available id of the line: the id string the request carries,
  the empty string when the request has no id, when the line does not parse, or when it
  parses to something that is not an object. When the body of the \<^verbatim>\<open>try\<close> raises, at
  any point, the failure response carries that same id.
\<close>

theorem response_echoes_request_id:
  "(py_strip raw \<noteq> [] \<longrightarrow>
      (\<exists>resp. json_out (process_line env s raw) = json_out s @ [json_dumps resp @ [10]]
         \<and> map_of resp (S ''id'') = Some (RStr (best_id env (py_strip raw)))))
   \<and> (py_strip raw \<noteq> [] \<and> try_body env s (py_strip raw) = (r, Raised exc, s') \<longrightarrow>
        r = best_id env (py_strip raw)
        \<and> json_out (process_line env s raw)
            = json_out s @ [json_dumps (failure_response (best_id env (py_strip raw)) exc) @ [10]])
   \<and> (json_loads env line = Inr (JObj d) \<and> map_of d (S ''id'') = Some (JStr i) \<longrightarrow>
        best_id env line = i)
   \<and> (json_loads env line = Inr (JObj d) \<and> map_of d (S ''id'') = None \<longrightarrow> best_id env line = [])
   \<and> (json_loads env line = Inl e \<longrightarrow> best_id env line = [])"
proof -
  have a: "py_strip raw \<noteq> [] \<longrightarrow>
      (\<exists>resp. json_out (process_line env s raw) = json_out s @ [json_dumps resp @ [10]]
         \<and> map_of resp (S ''id'') = Some (RStr (best_id env (py_strip raw))))"
    using process_line_id [of raw env s] by blast
  have b: "py_strip raw \<noteq> [] \<and> try_body env s (py_strip raw) = (r, Raised exc, s') \<longrightarrow>
        r = best_id env (py_strip raw)
        \<and> json_out (process_line env s raw)
            = json_out s @ [json_dumps (failure_response (best_id env (py_strip raw)) exc) @ [10]]"
    using process_line_raised [of raw env s r exc s'] try_body_rid [of env s "py_strip raw"]
    by auto
  have c: "json_loads env line = Inr (JObj d) \<and> map_of d (S ''id'') = Some (JStr i) \<longrightarrow>
        best_id env line = i"
    by (auto simp: best_id_def)
  have d: "json_loads env line = Inr (JObj d) \<and> map_of d (S ''id'') = None \<longrightarrow> best_id env line = []"
    by (simp add: best_id_def)
  have e: "json_loads env line = Inl e \<longrightarrow> best_id env line = []"
    by (simp add: best_id_def)
  from a b c d e show ?thesis by blast
qed

lemma stub_env_fields:
  "json_loads stub_env = stub_loads" "float_of_str stub_env = stub_float_of_str"
  "py_repr stub_env = (\<lambda>v. [])" "KPipeline2 stub_env = stub_KPipeline2"
  "KPipeline1 stub_env = stub_KPipeline1" "run_pipeline stub_env = stub_run"
  by (simp_all add: stub_env_def)

lemmas stub_simps =
  stub_env_fields stub_loads_def stub_lines_def stub_float_of_str_def stub_KPipeline2_def
  stub_KPipeline1_def stub_run_def

lemmas request_simps =
  handle_request_def str_field_def or_default_def dict_get_def py_or_def norm_lang_def
  clamp_speed_def Let_def S_def py_strip_def py_isspace_def

lemma strip_line4: "py_strip (line4 @ [10]) = line4"
  by (simp add: py_strip_def py_isspace_def S_def line4_def)

lemma loads_line4:
  "json_loads stub_env line4
   = Inr (JObj [(S ''id'', JStr (S ''4'')), (S ''text'', JStr (S ''hi'')), (S ''voice'', JStr (S ''bad''))])"
  by (simp add: stub_simps line4_def S_def)

lemma loads_oops:
  "json_loads stub_env (S ''oops'')
   = Inl (PyExc JSONDecodeError (S ''Expecting value: line 1 column 1 (char 0)''))"
  by (simp add: stub_simps S_def)

lemma get_pipeline_init_a:
  "get_pipeline stub_env init_state (S ''a'')
   = (Inr 0, \<lparr>pipelines = [S ''a'' \<mapsto> 0], calls = [Construct2 (S ''a'') (Inr 0)], json_out = []\<rparr>)"
  by (simp add: get_pipeline_def init_state_def request_simps stub_simps)

lemma try_body_line4:
  "try_body stub_env init_state line4 = (S ''4'', Raised (PyExc ValueError (S ''unknown voice'')), state4)"
proof -
  have g: "get_pipeline stub_env init_state [97] 
   = (Inr 0, \<lparr>pipelines = [[97] \<mapsto> 0], calls = [Construct2 [97] (Inr 0)], json_out = []\<rparr>)"
    using get_pipeline_init_a by (simp add: S_def)
  show ?thesis
    unfolding try_body_def loads_line4
    by (simp add: request_simps synthesize_def g state4_def stub_simps)
qed

section \<open>Exceptions become failure responses\<close>

lemma get_pipeline_frame:
  "get_pipeline env (s\<lparr>json_out := out\<rparr>) l
   = (fst (get_pipeline env s l), (snd (get_pipeline env s l))\<lparr>json_out := out\<rparr>)"
  by (simp add: get_pipeline_def Let_def split: option.splits sum.splits)

lemma synthesize_frame:
  "synthesize env (s\<lparr>json_out := out\<rparr>) rid t v l sp
   = (case synthesize env s rid t v l sp of (r, oc, s') \<Rightarrow> (r, oc, s'\<lparr>json_out := out\<rparr>))"
  by (simp add: synthesize_def get_pipeline_frame Let_def split: prod.splits sum.splits)

lemma handle_request_frame:
  "handle_request env (s\<lparr>json_out := out\<rparr>) d
   = (case handle_request env s d of
        (r, oc, s') \<Rightarrow> (r, oc, s'\<lparr>json_out := out @ drop (length (json_out s)) (json_out s')\<rparr>))"
proof (cases "py_float env (py_or (dict_get d (S ''speed'')) (JFloat (Finite 1)))")
  case (Inl e)
  then show ?thesis by (simp add: handle_request_def Let_def)
next
  case sp: (Inr speed0)
  show ?thesis
  proof (cases "str_field env d (S ''text'') [] = []")
    case True
    with sp show ?thesis by (simp add: handle_request_def Let_def write_response_def)
  next
    case False
    define X where "X = synthesize env s (py_str env (py_or (dict_get d (S ''id'')) (JStr [])))
       (str_field env d (S ''text'') [])
       (or_default (str_field env d (S ''voice'') (S ''af_heart'')) (S ''af_heart''))
       (or_default (str_field env d (S ''lang_code'') (S ''a'')) (S ''a''))
       (clamp_speed speed0)"
    obtain r oc s' where x: "X = (r, oc, s')" by (cases X)
    from synthesize_props(2) [OF x [unfolded X_def]] have "json_out s' = json_out s" .
    with x False sp show ?thesis
      by (simp add: handle_request_def Let_def synthesize_frame X_def [symmetric])
  qed
qed

lemma try_body_frame:
  "try_body env (s\<lparr>json_out := out\<rparr>) line
   = (case try_body env s line of
        (r, oc, s') \<Rightarrow> (r, oc, s'\<lparr>json_out := out @ drop (length (json_out s)) (json_out s')\<rparr>))"
proof (cases "json_loads env line")
  case (Inl e)
  then show ?thesis by (simp add: try_body_def)
next
  case (Inr req)
  then show ?thesis
    by (cases req) (simp_all add: try_body_def handle_request_frame)
qed

lemma process_line_frame:
  "process_line env (s\<lparr>json_out := out\<rparr>) raw
   = (process_line env s raw)
       \<lparr>json_out := out @ drop (length (json_out s)) (json_out (process_line env s raw))\<rparr>"
proof (cases "py_strip raw = []")
  case True
  then show ?thesis by (simp add: process_line_def)
next
  case False
  obtain r oc s' where t: "try_body env s (py_strip raw) = (r, oc, s')"
    by (cases "try_body env s (py_strip raw)")
  from try_body_cases [OF t] have "\<exists>more. json_out s' = json_out s @ more"
    by (auto simp: write_response_def)
  then obtain more where m: "json_out s' = json_out s @ more" by blast
  show ?thesis
    using False t m
    by (cases oc) (simp_all add: process_line_def try_body_frame write_response_def)
qed

theorem response_echoes_request_id_witness:
  \<open>py_strip (line4 @ [10]) \<noteq> []
   \<and> try_body stub_env init_state (py_strip (line4 @ [10]))
       = (S ''4'', Raised (PyExc ValueError (S ''unknown voice'')), state4)
   \<and> best_id stub_env line4 = S ''4''
   \<and> json_out (process_line stub_env init_state (line4 @ [10]))
       = [json_dumps (failure_response (S ''4'') (PyExc ValueError (S ''unknown voice''))) @ [10]]
   \<and> json_dumps (failure_response (S ''4'') (PyExc ValueError (S ''unknown voice'')))
       = S ''{"id": "4", "ok": false, "error": "unknown voice"}''
   \<and> json_loads stub_env (S ''oops'')
       = Inl (PyExc JSONDecodeError (S ''Expecting value: line 1 column 1 (char 0)''))
   \<and> best_id stub_env (S ''oops'') = []\<close>
proof -
  let ?exc = "PyExc ValueError (S ''unknown voice'')"
  let ?e = "PyExc JSONDecodeError (S ''Expecting value: line 1 column 1 (char 0)'')"
  note t = response_echoes_request_id [of "line4 @ [10]" stub_env init_state "S ''4''" ?exc state4
      "S ''oops''" "[]" "[]" ?e]
  have n: "py_strip (line4 @ [10]) \<noteq> []" unfolding strip_line4 by (simp add: line4_def S_def)
  have b: "try_body stub_env init_state (py_strip (line4 @ [10])) = (S ''4'', Raised ?exc, state4)"
    unfolding strip_line4 by (rule try_body_line4)
  have i: "json_out (init_state :: nat state) = []" by (simp add: init_state_def)
  from t n b have "S ''4'' = best_id stub_env (py_strip (line4 @ [10]))"
    and "json_out (process_line stub_env init_state (line4 @ [10]))
         = json_out (init_state :: nat state)
           @ [json_dumps (failure_response (best_id stub_env (py_strip (line4 @ [10]))) ?exc) @ [10]]"
    by blast+
  then have c: "best_id stub_env line4 = S ''4''"
    and d: "json_out (process_line stub_env init_state (line4 @ [10]))
         = [json_dumps (failure_response (S ''4'') ?exc) @ [10]]"
    using i by (simp_all add: strip_line4)
  from t loads_oops have e: "best_id stub_env (S ''oops'') = []" by blast
  have f: \<open>json_dumps (failure_response (S ''4'') ?exc)
       = S ''{"id": "4", "ok": false, "error": "unknown voice"}''\<close>
    by (simp add: json_dumps_def failure_response_def dumps_str_def escape_char_def S_def)
  from n b c d e f loads_oops show ?thesis by simp
qed

lemma try_body_loads_fails:
  "json_loads env line = Inl exc \<Longrightarrow> try_body env s line = ([], Raised exc, s)"
  by (simp add: try_body_def)

lemma write_response_as_update:
  "write_response s resp = s\<lparr>json_out := json_out s @ [json_dumps resp @ [10]]\<rparr>"
  by (simp add: write_response_def)

text \<open>
  Claim C2. When the body of the \<^verbatim>\<open>try\<close> raises on a line that is not blank, the turn
  of the loop writes exactly one failure response, with the best-available id and
  \<^verbatim>\<open>str(exc)\<close>, and the loop goes on with the next line. When it is \<^verbatim>\<open>json.loads\<close>
  that raises, the id is the empty string and nothing but the output has changed: the
  next line is answered exactly as it would have been without the bad line.
\<close>

theorem exception_becomes_failure_response:
  "(py_strip raw \<noteq> [] \<and> try_body env s (py_strip raw) = (rid, Raised exc, s1) \<longrightarrow>
      process_line env s raw = write_response s1 (failure_response rid exc)
      \<and> json_out (process_line env s raw)
          = json_out s @ [json_dumps (failure_response rid exc) @ [10]]
      \<and> rid = best_id env (py_strip raw))
   \<and> (py_strip raw \<noteq> [] \<and> json_loads env (py_strip raw) = Inl exc \<longrightarrow>
      process_line env s raw = write_response s (failure_response [] exc)
      \<and> process_line env (process_line env s raw) nxt
          = (process_line env s nxt)
              \<lparr>json_out := json_out s @ [json_dumps (failure_response [] exc) @ [10]]
                   @ drop (length (json_out s)) (json_out (process_line env s nxt))\<rparr>)
   \<and> main_loop env s (raw # rest) = main_loop env (process_line env s raw) rest"
proof -
  have a: "py_strip raw \<noteq> [] \<and> try_body env s (py_strip raw) = (rid, Raised exc, s1) \<longrightarrow>
      process_line env s raw = write_response s1 (failure_response rid exc)
      \<and> json_out (process_line env s raw)
          = json_out s @ [json_dumps (failure_response rid exc) @ [10]]
      \<and> rid = best_id env (py_strip raw)"
    using process_line_raised [of raw env s rid exc s1] try_body_rid [of env s "py_strip raw"]
    by auto
  have b: "py_strip raw \<noteq> [] \<and> json_loads env (py_strip raw) = Inl exc \<longrightarrow>
      process_line env s raw = write_response s (failure_response [] exc)
      \<and> process_line env (process_line env s raw) nxt
          = (process_line env s nxt)
              \<lparr>json_out := json_out s @ [json_dumps (failure_response [] exc) @ [10]]
                   @ drop (length (json_out s)) (json_out (process_line env s nxt))\<rparr>"
  proof (intro impI, elim conjE)
    assume n: "py_strip raw \<noteq> []" and l: "json_loads env (py_strip raw) = Inl exc"
    from process_line_raised(1) [OF n try_body_loads_fails [OF l]]
    have p: "process_line env s raw = write_response s (failure_response [] exc)" .
    show "process_line env s raw = write_response s (failure_response [] exc)
      \<and> process_line env (process_line env s raw) nxt
          = (process_line env s nxt)
              \<lparr>json_out := json_out s @ [json_dumps (failure_response [] exc) @ [10]]
                   @ drop (length (json_out s)) (json_out (process_line env s nxt))\<rparr>"
      unfolding p by (simp add: write_response_as_update process_line_frame)
  qed
  have c: "main_loop env s (raw # rest) = main_loop env (process_line env s raw) rest"
    by simp
  from a b c show ?thesis by blast
qed

theorem exception_becomes_failure_response_witness:
  \<open>py_strip (S ''oops'' @ [10]) \<noteq> []
   \<and> json_loads stub_env (py_strip (S ''oops'' @ [10]))
       = Inl (PyExc JSONDecodeError (S ''Expecting value: line 1 column 1 (char 0)''))
   \<and> json_out (main_loop stub_env init_state [S ''oops'' @ [10], line1 @ [10]])
       = [S ''{"id": "", "ok": false, "error": "Expecting value: line 1 column 1 (char 0)"}'' @ [10],
          S ''{"id": "1", "ok": true, "format": "wav_24000", "sample_rate": 24000, "audio_base64": ""}'' @ [10]]
   \<and> pipelines (main_loop stub_env init_state [S ''oops'' @ [10], line1 @ [10]]) = Map.empty
   \<and> calls (main_loop stub_env init_state [S ''oops'' @ [10], line1 @ [10]]) = []\<close>
proof -
  let ?bad = "S ''oops'' @ [10]"
  let ?e = "PyExc JSONDecodeError (S ''Expecting value: line 1 column 1 (char 0)'')"
  let ?s0 = "init_state :: nat state"
  note t = exception_becomes_failure_response
    [of ?bad stub_env ?s0 "[]" ?e ?s0 "line1 @ [10]" "[line1 @ [10]]"]
  have st: "py_strip ?bad = S ''oops''" by (simp add: py_strip_def py_isspace_def S_def)
  have n: "py_strip ?bad \<noteq> []" unfolding st by (simp add: S_def)
  have l: "json_loads stub_env (py_strip ?bad) = Inl ?e" unfolding st by (rule loads_oops)
  have i: "json_out ?s0 = []" "pipelines ?s0 = Map.empty" "calls ?s0 = []"
    by (simp_all add: init_state_def)
  from t n l have p: "process_line stub_env ?s0 ?bad = write_response ?s0 (failure_response [] ?e)"
    by blast
  from t have m: "main_loop stub_env ?s0 [?bad, line1 @ [10]]
        = main_loop stub_env (process_line stub_env ?s0 ?bad) [line1 @ [10]]"
    by blast
  have f: \<open>json_dumps (failure_response [] ?e)
       = S ''{"id": "", "ok": false, "error": "Expecting value: line 1 column 1 (char 0)"}''\<close>
    by (simp add: json_dumps_def failure_response_def dumps_str_def escape_char_def S_def)
  have "json_out (main_loop stub_env ?s0 [?bad, line1 @ [10]])
        = [json_dumps (failure_response [] ?e) @ [10],
           json_dumps (success_response (S ''1'') []) @ [10]]"
    and "pipelines (main_loop stub_env ?s0 [?bad, line1 @ [10]]) = Map.empty"
    and "calls (main_loop stub_env ?s0 [?bad, line1 @ [10]]) = []"
    unfolding m p by (simp_all add: process_line1 i)
  with n l show ?thesis unfolding f dumps_success1 by simp
qed

section \<open>The fast path for an empty text\<close>

lemma handle_request_empty_text:
  assumes "str_field env d (S ''text'') [] = []"
    and "py_float env (py_or (dict_get d (S ''speed'')) (JFloat (Finite 1))) = Inr f"
  shows "handle_request env s d
         = (py_str env (py_or (dict_get d (S ''id'')) (JStr [])), Continued,
            write_response s (success_response (py_str env (py_or (dict_get d (S ''id'')) (JStr []))) []))"
  using assms by (simp add: handle_request_def Let_def)

lemma process_line_empty_text:
  assumes "py_strip raw \<noteq> []" "json_loads env (py_strip raw) = Inr (JObj d)"
    and "str_field env d (S ''text'') [] = []"
    and "py_float env (py_or (dict_get d (S ''speed'')) (JFloat (Finite 1))) = Inr f"
  shows "process_line env s raw = write_response s (success_response (best_id env (py_strip raw)) [])"
proof -
  have "best_id env (py_strip raw) = py_str env (py_or (dict_get d (S ''id'')) (JStr []))"
    using assms(2) by (simp add: best_id_def rid_of_dict)
  then show ?thesis
    using assms by (simp add: process_line_def try_body_def handle_request_empty_text)
qed

lemma str_field_absent: "map_of d k = None \<Longrightarrow> str_field env d k [] = []"
  by (simp add: str_field_def dict_get_def py_or_def py_strip_def)

lemma str_field_blank:
  "map_of d k = Some (JStr t) \<Longrightarrow> py_strip t = [] \<Longrightarrow> str_field env d k [] = []"
  by (simp add: str_field_def dict_get_def py_or_def py_strip_def)

text \<open>
  Claim C3, as the code has it. The speed is converted at line 103, before the text is
  looked at. When that conversion returns, a request whose text is empty after
  trimming, or absent, is answered with the success response of the empty
  \<^verbatim>\<open>audio_base64\<close>, format \<^verbatim>\<open>wav_24000\<close> and sample rate 24000, and the state is
  unchanged but for that line of output: no entry of the cache is read or made, no
  engine is constructed or called.
\<close>

theorem empty_text_answers_without_engine:
  "(py_strip raw \<noteq> [] \<and> json_loads env (py_strip raw) = Inr (JObj d)
      \<and> str_field env d (S ''text'') [] = []
      \<and> py_float env (py_or (dict_get d (S ''speed'')) (JFloat (Finite 1))) = Inr f \<longrightarrow>
        process_line env s raw
          = write_response s (success_response (best_id env (py_strip raw)) [])
        \<and> calls (process_line env s raw) = calls s
        \<and> pipelines (process_line env s raw) = pipelines s
        \<and> json_out (process_line env s raw)
            = json_out s
              @ [json_dumps [(S ''id'', RStr (best_id env (py_strip raw))), (S ''ok'', RBool True),
                             (S ''format'', RStr (S ''wav_24000'')), (S ''sample_rate'', RInt 24000),
                             (S ''audio_base64'', RStr [])] @ [10]])
   \<and> (map_of d (S ''text'') = None \<longrightarrow> str_field env d (S ''text'') [] = [])
   \<and> (map_of d (S ''text'') = Some (JStr t) \<and> py_strip t = [] \<longrightarrow>
        str_field env d (S ''text'') [] = [])"
proof -
  have a: "py_strip raw \<noteq> [] \<and> json_loads env (py_strip raw) = Inr (JObj d)
      \<and> str_field env d (S ''text'') [] = []
      \<and> py_float env (py_or (dict_get d (S ''speed'')) (JFloat (Finite 1))) = Inr f \<longrightarrow>
        process_line env s raw
          = write_response s (success_response (best_id env (py_strip raw)) [])"
    using process_line_empty_text [of raw env d f s] by blast
  have b: "process_line env s raw
          = write_response s (success_response (best_id env (py_strip raw)) []) \<longrightarrow>
        calls (process_line env s raw) = calls s
        \<and> pipelines (process_line env s raw) = pipelines s
        \<and> json_out (process_line env s raw)
            = json_out s
              @ [json_dumps [(S ''id'', RStr (best_id env (py_strip raw))), (S ''ok'', RBool True),
                             (S ''format'', RStr (S ''wav_24000'')), (S ''sample_rate'', RInt 24000),
                             (S ''audio_base64'', RStr [])] @ [10]]"
    by (simp add: success_response_def)
  from a b str_field_absent [of d "S ''text''" env] str_field_blank [of d "S ''text''" t env]
  show ?thesis by blast
qed

theorem empty_text_answers_without_engine_witness:
  \<open>py_strip (line1 @ [10]) \<noteq> []
   \<and> json_loads stub_env (py_strip (line1 @ [10]))
       = Inr (JObj [(S ''id'', JStr (S ''1'')), (S ''text'', JStr []), (S ''voice'', JStr (S ''x''))])
   \<and> json_out (process_line stub_env state4 (line1 @ [10]))
       = [S ''{"id": "1", "ok": true, "format": "wav_24000", "sample_rate": 24000, "audio_base64": ""}'' @ [10]]
   \<and> calls (process_line stub_env state4 (line1 @ [10])) = calls state4
   \<and> pipelines (process_line stub_env state4 (line1 @ [10])) = pipelines state4\<close>
proof -
  let ?d = "[(S ''id'', JStr (S ''1'')), (S ''text'', JStr []), (S ''voice'', JStr (S ''x''))]"
  note t = empty_text_answers_without_engine [of "line1 @ [10]" stub_env ?d "Finite 1" state4 "[]"]
  have n: "py_strip (line1 @ [10]) \<noteq> []" unfolding strip_line1 by (simp add: line1_def S_def)
  have l: "json_loads stub_env (py_strip (line1 @ [10])) = Inr (JObj ?d)"
    unfolding strip_line1 by (rule loads_line1)
  have m: "map_of ?d (S ''text'') = Some (JStr [])" "py_strip [] = []"
    by (simp_all add: S_def py_strip_def)
  from t m have x: "str_field stub_env ?d (S ''text'') [] = []" by blast
  have f: "py_float stub_env (py_or (dict_get ?d (S ''speed'')) (JFloat (Finite 1))) = Inr (Finite 1)"
    by (simp add: dict_get_def py_or_def S_def)
  have b: "best_id stub_env (py_strip (line1 @ [10])) = S ''1''"
    unfolding strip_line1 by (simp add: best_id_def loads_line1 S_def)
  have j: "json_out state4 = []" by (simp add: state4_def)
  from t n l x f have
    "json_out (process_line stub_env state4 (line1 @ [10]))
            = json_out state4
              @ [json_dumps [(S ''id'', RStr (best_id stub_env (py_strip (line1 @ [10])))), (S ''ok'', RBool True),
                             (S ''format'', RStr (S ''wav_24000'')), (S ''sample_rate'', RInt 24000),
                             (S ''audio_base64'', RStr [])] @ [10]]"
    and c: "calls (process_line stub_env state4 (line1 @ [10])) = calls state4"
    and p: "pipelines (process_line stub_env state4 (line1 @ [10])) = pipelines state4"
    by blast+
  then have "json_out (process_line stub_env state4 (line1 @ [10]))
       = [json_dumps (success_response (S ''1'') []) @ [10]]"
    unfolding b j by (simp add: success_response_def)
  with n l c p show ?thesis unfolding dumps_success1 by simp
qed

text \<open>
  Two requests with an empty text that are answered with a failure: the speed
  \<^verbatim>\<open>"fast"\<close> is no number, and the integer \<open>2 ^ 1024\<close> is too large for a float.
\<close>

theorem empty_text_counterexample:
  \<open>json_loads stub_env (py_strip (line5 @ [10]))
     = Inr (JObj [(S ''id'', JStr (S ''5'')), (S ''text'', JStr []), (S ''speed'', JStr (S ''fast''))])
   \<and> json_out (process_line stub_env init_state (line5 @ [10]))
       = [json_dumps (failure_response (S ''5'')
            (PyExc ValueError (S ''could not convert string to float: '' @ [39] @ S ''fast'' @ [39])))
          @ [10]]
   \<and> handle_request stub_env init_state [(S ''text'', JStr []), (S ''speed'', JInt (2 ^ 1024))]
       = ([], Raised (PyExc OverflowError (S ''int too large to convert to float'')), init_state)\<close>
proof -
  have st: "py_strip (line5 @ [10]) = line5"
    by (simp add: py_strip_def py_isspace_def S_def line5_def)
  have l: "json_loads stub_env line5
     = Inr (JObj [(S ''id'', JStr (S ''5'')), (S ''text'', JStr []), (S ''speed'', JStr (S ''fast''))])"
    by (simp add: stub_simps line5_def S_def)
  have n: "line5 \<noteq> []" by (simp add: line5_def S_def)
  have i: "json_out (init_state :: nat state) = []" by (simp add: init_state_def)
  have tb: "try_body stub_env init_state line5
       = (S ''5'', Raised (PyExc ValueError (S ''could not convert string to float: '' @ [39] @ S ''fast'' @ [39])),
          init_state)"
    unfolding try_body_def l by (simp add: request_simps stub_env_fields stub_float_of_str_def)
  have p: "json_out (process_line stub_env init_state (line5 @ [10]))
       = [json_dumps (failure_response (S ''5'')
            (PyExc ValueError (S ''could not convert string to float: '' @ [39] @ S ''fast'' @ [39])))
          @ [10]]"
    using n by (simp add: process_line_def st tb i)
  have h: "handle_request stub_env init_state [(S ''text'', JStr []), (S ''speed'', JInt (2 ^ 1024))]
       = ([], Raised (PyExc OverflowError (S ''int too large to convert to float'')), init_state)"
    by (simp add: request_simps)
  from l p h show ?thesis unfolding st by simp
qed

section \<open>The speed the engine receives\<close>

lemma engine_speeds_append: "engine_speeds (xs @ ys) = engine_speeds xs @ engine_speeds ys"
  by (simp add: engine_speeds_def)

lemma clamp_speed_Finite:
  "clamp_speed (Finite x) = Finite (max (7 / 10) (min (12 / 10) x))"
  by (simp add: clamp_speed_def Let_def max_def min_def)

lemma clamp_speed_inf: "clamp_speed PosInf = Finite (12 / 10)" "clamp_speed NegInf = Finite (7 / 10)"
  by (simp_all add: clamp_speed_def Let_def)

lemma py_float_speed_value:
  "speed_value v = Some x \<Longrightarrow> py_float env (py_or v (JFloat (Finite 1))) = Inr (Finite x)"
  by (cases v rule: speed_value.cases) (auto simp: py_or_def split: if_splits)

lemma get_pipeline_speeds:
  "get_pipeline env s l = (r, s') \<Longrightarrow> engine_speeds (calls s') = engine_speeds (calls s)"
  by (auto simp: get_pipeline_def Let_def engine_speeds_def split: option.splits sum.splits if_splits)

lemma synthesize_speeds:
  assumes "synthesize env s rid t v l sp = (r, oc, s')"
  shows "engine_speeds (calls s')
         = engine_speeds (calls s) @ (case fst (get_pipeline env s l) of Inl e \<Rightarrow> [] | Inr p \<Rightarrow> [sp])"
proof -
  obtain g s1 where g: "get_pipeline env s l = (g, s1)" by (cases "get_pipeline env s l")
  note k = get_pipeline_speeds [OF g]
  show ?thesis
  proof (cases g)
    case (Inl e)
    with assms g k show ?thesis by (simp add: synthesize_def)
  next
    case (Inr p)
    with assms g have "\<exists>res. calls s' = calls s1 @ [Synthesize p t v sp res]"
      by (auto simp: synthesize_def Let_def split: sum.splits)
    with g k Inr show ?thesis by (auto simp: engine_speeds_append) (simp add: engine_speeds_def)
  qed
qed

lemma handle_request_speeds:
  assumes "handle_request env s d = (r, oc, s')"
    and "py_float env (py_or (dict_get d (S ''speed'')) (JFloat (Finite 1))) = Inr f"
  shows "engine_speeds (calls s')
         = engine_speeds (calls s)
           @ (if str_field env d (S ''text'') [] = [] then []
              else case fst (get_pipeline env s
                     (or_default (str_field env d (S ''lang_code'') (S ''a'')) (S ''a''))) of
                     Inl e \<Rightarrow> [] | Inr p \<Rightarrow> [clamp_speed f])"
proof (cases "str_field env d (S ''text'') [] = []")
  case True
  with assms show ?thesis by (auto simp: handle_request_def Let_def)
next
  case False
  with assms have "synthesize env s (py_str env (py_or (dict_get d (S ''id'')) (JStr [])))
       (str_field env d (S ''text'') [])
       (or_default (str_field env d (S ''voice'') (S ''af_heart'')) (S ''af_heart''))
       (or_default (str_field env d (S ''lang_code'') (S ''a'')) (S ''a''))
       (clamp_speed f) = (r, oc, s')"
    by (simp add: handle_request_def Let_def)
  from synthesize_speeds [OF this] False show ?thesis by simp
qed

lemma process_line_calls:
  "py_strip raw \<noteq> [] \<Longrightarrow> try_body env s (py_strip raw) = (r, oc, s')
     \<Longrightarrow> calls (process_line env s raw) = calls s'"
  by (cases oc) (simp_all add: process_line_def)

lemma process_line_speeds:
  assumes "py_strip raw \<noteq> []" "json_loads env (py_strip raw) = Inr (JObj d)"
    and "speed_value (dict_get d (S ''speed'')) = Some x"
  shows "engine_speeds (calls (process_line env s raw))
         = engine_speeds (calls s)
           @ (if str_field env d (S ''text'') [] = [] then []
              else case fst (get_pipeline env s
                     (or_default (str_field env d (S ''lang_code'') (S ''a'')) (S ''a''))) of
                     Inl e \<Rightarrow> [] | Inr p \<Rightarrow> [Finite (max (7 / 10) (min (12 / 10) x))])"
proof -
  obtain r oc s' where h: "handle_request env s d = (r, oc, s')"
    by (cases "handle_request env s d")
  with assms(2) have t: "try_body env s (py_strip raw) = (r, oc, s')" by (simp add: try_body_def)
  from handle_request_speeds [OF h py_float_speed_value [OF assms(3)], unfolded clamp_speed_Finite]
    process_line_calls [OF assms(1) t]
  show ?thesis by simp
qed

text \<open>
  Claim C4, as the code has it. For a request whose speed is a finite number other than
  zero (an integer of magnitude below \<open>2 ^ 1024 - 2 ^ 970\<close>, from where \<^verbatim>\<open>float\<close>
  raises), the conversion at line 103 returns, and
  the engine, if the request reaches it, is called with exactly that number clamped to
  \<open>[0.7, 1.2]\<close>: 0.7 below the range, 1.2 above it, the number itself inside. A speed
  that is absent, null or zero is replaced by the default 1.0 before clamping. The
  request reaches the engine, once, when its text is not empty and a handle is acquired.
  An infinite speed clamps to the nearer bound.
\<close>

theorem speed_reaching_engine_is_clamped:
  "(py_strip raw \<noteq> [] \<and> json_loads env (py_strip raw) = Inr (JObj d)
      \<and> speed_value (dict_get d (S ''speed'')) = Some x \<longrightarrow>
        py_float env (py_or (dict_get d (S ''speed'')) (JFloat (Finite 1))) = Inr (Finite x)
        \<and> engine_speeds (calls (process_line env s raw))
            = engine_speeds (calls s)
              @ (if str_field env d (S ''text'') [] = [] then []
                 else case fst (get_pipeline env s
                        (or_default (str_field env d (S ''lang_code'') (S ''a'')) (S ''a''))) of
                        Inl e \<Rightarrow> [] | Inr p \<Rightarrow> [Finite (max (7 / 10) (min (12 / 10) x))]))
   \<and> max (7 / 10) (min (12 / 10) x)
       = (if x < 7 / 10 then 7 / 10 else if 12 / 10 < x then 12 / 10 else x)
   \<and> (map_of d (S ''speed'') = None \<longrightarrow> speed_value (dict_get d (S ''speed'')) = Some 1)
   \<and> (y \<noteq> 0 \<longrightarrow> speed_value (JFloat (Finite y)) = Some y)
   \<and> (n \<noteq> 0 \<and> \<bar>n\<bar> < 2 ^ 1024 - 2 ^ 970 \<longrightarrow> speed_value (JInt n) = Some (of_int n))
   \<and> clamp_speed PosInf = Finite (12 / 10) \<and> clamp_speed NegInf = Finite (7 / 10)"
proof -
  have a: "py_strip raw \<noteq> [] \<and> json_loads env (py_strip raw) = Inr (JObj d)
      \<and> speed_value (dict_get d (S ''speed'')) = Some x \<longrightarrow>
        py_float env (py_or (dict_get d (S ''speed'')) (JFloat (Finite 1))) = Inr (Finite x)
        \<and> engine_speeds (calls (process_line env s raw))
            = engine_speeds (calls s)
              @ (if str_field env d (S ''text'') [] = [] then []
                 else case fst (get_pipeline env s
                        (or_default (str_field env d (S ''lang_code'') (S ''a'')) (S ''a''))) of
                        Inl e \<Rightarrow> [] | Inr p \<Rightarrow> [Finite (max (7 / 10) (min (12 / 10) x))])"
    using process_line_speeds [of raw env d x s] py_float_speed_value [of "dict_get d (S ''speed'')" x env]
    by blast
  have b: "max (7 / 10) (min (12 / 10) x)
       = (if x < 7 / 10 then 7 / 10 else if 12 / 10 < x then 12 / 10 else x)"
    by (simp add: max_def min_def)
  have c: "map_of d (S ''speed'') = None \<longrightarrow> speed_value (dict_get d (S ''speed'')) = Some 1"
    by (simp add: dict_get_def)
  have d: "(y \<noteq> 0 \<longrightarrow> speed_value (JFloat (Finite y)) = Some y)
    \<and> (n \<noteq> 0 \<and> \<bar>n\<bar> < 2 ^ 1024 - 2 ^ 970 \<longrightarrow> speed_value (JInt n) = Some (of_int n))"
    by simp
  from a b c d clamp_speed_inf show ?thesis by blast
qed

lemma fst_get_pipeline_init_a:
  "fst (get_pipeline stub_env init_state (or_default (str_field stub_env d (S ''lang_code'') (S ''a'')) (S ''a''))) = Inr 0"
  if "map_of d (S ''lang_code'') = None" for d
proof -
  have "or_default (str_field stub_env d (S ''lang_code'') (S ''a'')) (S ''a'') = S ''a''"
    using that by (simp add: request_simps)
  then show ?thesis by (simp add: get_pipeline_init_a)
qed

lemma strip_line2: "py_strip (line2 @ [10]) = line2"
  by (simp add: py_strip_def py_isspace_def S_def line2_def)

lemma strip_line7: "py_strip (line7 @ [10]) = line7"
  by (simp add: py_strip_def py_isspace_def S_def line7_def)

lemma loads_line2:
  "json_loads stub_env line2
   = Inr (JObj [(S ''id'', JStr (S ''2'')), (S ''text'', JStr (S ''hi'')), (S ''speed'', JFloat (Finite 5))])"
  by (simp add: stub_simps line2_def S_def)

lemma loads_line7:
  "json_loads stub_env line7
   = Inr (JObj [(S ''id'', JInt 7), (S ''text'', JStr (S ''hi'')), (S ''speed'', JInt 0)])"
  by (simp add: stub_simps line7_def S_def)

theorem speed_reaching_engine_is_clamped_witness:
  \<open>py_strip (line2 @ [10]) \<noteq> []
   \<and> json_loads stub_env (py_strip (line2 @ [10]))
       = Inr (JObj [(S ''id'', JStr (S ''2'')), (S ''text'', JStr (S ''hi'')), (S ''speed'', JFloat (Finite 5))])
   \<and> speed_value (dict_get [(S ''id'', JStr (S ''2'')), (S ''text'', JStr (S ''hi'')),
                              (S ''speed'', JFloat (Finite 5))] (S ''speed'')) = Some 5
   \<and> engine_speeds (calls (process_line stub_env init_state (line2 @ [10]))) = [Finite (12 / 10)]
   \<and> map clamp_speed [Finite (3 / 10), Finite (7 / 10), Finite 1, Finite (12 / 10), Finite 5]
       = [Finite (7 / 10), Finite (7 / 10), Finite 1, Finite (12 / 10), Finite (12 / 10)]\<close>
proof -
  let ?d = "[(S ''id'', JStr (S ''2'')), (S ''text'', JStr (S ''hi'')), (S ''speed'', JFloat (Finite 5))]"
  note t = speed_reaching_engine_is_clamped [of "line2 @ [10]" stub_env ?d 5 init_state 5 5]
  have n: "py_strip (line2 @ [10]) \<noteq> []" unfolding strip_line2 by (simp add: line2_def S_def)
  have l: "json_loads stub_env (py_strip (line2 @ [10])) = Inr (JObj ?d)"
    unfolding strip_line2 by (rule loads_line2)
  have v: "speed_value (dict_get ?d (S ''speed'')) = Some 5" by (simp add: dict_get_def S_def)
  have x: "str_field stub_env ?d (S ''text'') [] \<noteq> []" by (simp add: request_simps)
  have g: "fst (get_pipeline stub_env init_state
             (or_default (str_field stub_env ?d (S ''lang_code'') (S ''a'')) (S ''a''))) = Inr 0"
    by (rule fst_get_pipeline_init_a) (simp add: S_def)
  have i: "engine_speeds (calls (init_state :: nat state)) = []"
    by (simp add: init_state_def engine_speeds_def)
  from t n l v have "engine_speeds (calls (process_line stub_env init_state (line2 @ [10])))
            = engine_speeds (calls (init_state :: nat state))
              @ (if str_field stub_env ?d (S ''text'') [] = [] then []
                 else case fst (get_pipeline stub_env init_state
                        (or_default (str_field stub_env ?d (S ''lang_code'') (S ''a'')) (S ''a''))) of
                        Inl e \<Rightarrow> [] | Inr p \<Rightarrow> [Finite (max (7 / 10) (min (12 / 10) 5))])"
    by blast
  then have e: "engine_speeds (calls (process_line stub_env init_state (line2 @ [10]))) = [Finite (12 / 10)]"
    unfolding g i using x by simp
  have m: "map clamp_speed [Finite (3 / 10), Finite (7 / 10), Finite 1, Finite (12 / 10), Finite 5]
       = [Finite (7 / 10), Finite (7 / 10), Finite 1, Finite (12 / 10), Finite (12 / 10)]"
    by (simp add: clamp_speed_Finite)
  from n l v e m show ?thesis by simp
qed

text \<open>
  A speed of 0 is numeric and below the range, so its clamp is 0.7; the engine is called
  with 1.0.
\<close>

theorem speed_zero_counterexample:
  \<open>json_loads stub_env (py_strip (line7 @ [10]))
     = Inr (JObj [(S ''id'', JInt 7), (S ''text'', JStr (S ''hi'')), (S ''speed'', JInt 0)])
   \<and> engine_speeds (calls (process_line stub_env init_state (line7 @ [10]))) = [Finite 1]
   \<and> clamp_speed (Finite 0) = Finite (7 / 10)\<close>
proof -
  let ?d = "[(S ''id'', JInt 7), (S ''text'', JStr (S ''hi'')), (S ''speed'', JInt 0)]"
  have n: "py_strip (line7 @ [10]) \<noteq> []" unfolding strip_line7 by (simp add: line7_def S_def)
  have l: "json_loads stub_env (py_strip (line7 @ [10])) = Inr (JObj ?d)"
    unfolding strip_line7 by (rule loads_line7)
  have v: "speed_value (dict_get ?d (S ''speed'')) = Some 1" by (simp add: dict_get_def S_def)
  have x: "str_field stub_env ?d (S ''text'') [] \<noteq> []" by (simp add: request_simps)
  have g: "fst (get_pipeline stub_env init_state
             (or_default (str_field stub_env ?d (S ''lang_code'') (S ''a'')) (S ''a''))) = Inr 0"
    by (rule fst_get_pipeline_init_a) (simp add: S_def)
  have i: "engine_speeds (calls (init_state :: nat state)) = []"
    by (simp add: init_state_def engine_speeds_def)
  have e: "engine_speeds (calls (process_line stub_env init_state (line7 @ [10]))) = [Finite 1]"
    unfolding process_line_speeds [OF n l v] g i using x by simp
  have c: "clamp_speed (Finite 0) = Finite (7 / 10)" by (simp add: clamp_speed_Finite)
  from l e c show ?thesis by simp
qed

section \<open>One engine instance per language code\<close>

lemma pool_inv_init: "pool_inv init_state"
  by (simp add: pool_inv_def init_state_def instances_def)

lemma pool_inv_card:
  assumes "pool_inv s"
  shows "length (instances (calls s)) = card (dom (pipelines s))"
proof -
  from assms have d: "distinct (map fst (instances (calls s)))"
    and m: "map_of (instances (calls s)) = pipelines s"
    by (simp_all add: pool_inv_def)
  have "dom (pipelines s) = set (map fst (instances (calls s)))"
    unfolding m [symmetric] by (simp add: dom_map_of_conv_image_fst)
  with distinct_card [OF d] show ?thesis by simp
qed

lemma process_line_inv: "pool_inv s \<Longrightarrow> pool_inv (process_line env s raw)"
proof (cases "py_strip raw = []")
  case True
  assume "pool_inv s"
  with True show ?thesis by (simp add: process_line_blank)
next
  case False
  assume "pool_inv s"
  with process_line_cases [OF False, of env s] show ?thesis by auto
qed

lemma process_line_keeps: "pipelines s \<subseteq>\<^sub>m pipelines (process_line env s raw)"
proof (cases "py_strip raw = []")
  case True
  then show ?thesis by (simp add: process_line_blank)
next
  case False
  with process_line_cases [OF False, of env s] show ?thesis by auto
qed

lemma main_loop_inv: "pool_inv s \<Longrightarrow> pool_inv (main_loop env s raws)"
  by (induction raws arbitrary: s) (simp_all add: process_line_inv)

lemma main_loop_keeps: "pipelines s \<subseteq>\<^sub>m pipelines (main_loop env s raws)"
proof (induction raws arbitrary: s)
  case Nil
  show ?case by simp
next
  case (Cons raw raws)
  from process_line_keeps [of s env raw] Cons.IH [of "process_line env s raw"]
  show ?case by (simp add: map_le_trans)
qed

lemma get_pipeline_success_map:
  "get_pipeline env s l = (Inr p, s1) \<Longrightarrow> pipelines s1 = (pipelines s)(norm_lang l \<mapsto> p)"
  by (auto simp: get_pipeline_def Let_def split: option.splits sum.splits if_splits)

lemma get_pipeline_again:
  assumes "get_pipeline env s l = (Inr p, s1)" "norm_lang l' = norm_lang l"
  shows "get_pipeline env s1 l' = (Inr p, s1)"
  using get_pipeline_stored [OF assms(1)] assms(2) by (simp add: get_pipeline_cached)

lemma two_languages:
  assumes "get_pipeline env init_state l = (Inr p, s1)" "get_pipeline env s1 l' = (Inr p', s2)"
    and "norm_lang l \<noteq> norm_lang l'"
  shows "length (instances (calls s2)) = 2"
proof -
  have "pool_inv s2"
    using get_pipeline_inv [OF assms(2) get_pipeline_inv [OF assms(1) pool_inv_init]] .
  moreover have "dom (pipelines s2) = {norm_lang l, norm_lang l'}"
    using get_pipeline_success_map [OF assms(1)] get_pipeline_success_map [OF assms(2)]
    by (auto simp: init_state_def)
  ultimately show ?thesis using assms(3) by (simp add: pool_inv_card)
qed

lemma one_language:
  assumes "get_pipeline env init_state l = (Inr p, s1)"
  shows "length (instances (calls s1)) = 1"
proof -
  have "pool_inv s1" using get_pipeline_inv [OF assms pool_inv_init] .
  moreover have "dom (pipelines s1) = {norm_lang l}"
    using get_pipeline_success_map [OF assms] by (auto simp: init_state_def)
  ultimately show ?thesis by (simp add: pool_inv_card)
qed

text \<open>
  Claim C7. The worker starts with an empty cache and no engine. After any input, no
  language code has had two engine instances constructed, the instances constructed are
  exactly the entries of the cache, so their number is the number of language codes in
  it, and no entry the cache had has been removed or replaced. An acquisition that
  returns a handle leaves it in the cache under the normalised code, and acquiring that
  code again returns the same handle and changes nothing, so nothing is constructed:
  from the empty cache one code acquired twice has constructed one instance, two
  different codes two.
\<close>

theorem one_engine_per_language_code:
  "pool_inv (init_state :: 'e state)
   \<and> (pool_inv s \<longrightarrow>
        pool_inv (main_loop env s raws)
        \<and> length (instances (calls (main_loop env s raws)))
            = card (dom (pipelines (main_loop env s raws))))
   \<and> pipelines s \<subseteq>\<^sub>m pipelines (main_loop env s raws)
   \<and> (get_pipeline env s l = (Inr p, s1) \<longrightarrow>
        pipelines s1 (norm_lang l) = Some p
        \<and> (norm_lang l' = norm_lang l \<longrightarrow> get_pipeline env s1 l' = (Inr p, s1)))
   \<and> (get_pipeline env init_state l = (Inr p, s1) \<longrightarrow>
        length (instances (calls s1)) = 1
        \<and> (get_pipeline env s1 l' = (Inr p', s2) \<and> norm_lang l \<noteq> norm_lang l' \<longrightarrow>
             length (instances (calls s2)) = 2))"
proof -
  have a: "pool_inv s \<longrightarrow>
        pool_inv (main_loop env s raws)
        \<and> length (instances (calls (main_loop env s raws)))
            = card (dom (pipelines (main_loop env s raws)))"
    using main_loop_inv [of s env raws] pool_inv_card [of "main_loop env s raws"] by blast
  have b: "get_pipeline env s l = (Inr p, s1) \<longrightarrow>
        pipelines s1 (norm_lang l) = Some p
        \<and> (norm_lang l' = norm_lang l \<longrightarrow> get_pipeline env s1 l' = (Inr p, s1))"
    using get_pipeline_stored [of env s l p s1] get_pipeline_again [of env s l p s1 l'] by blast
  have c: "get_pipeline env init_state l = (Inr p, s1) \<longrightarrow>
        length (instances (calls s1)) = 1
        \<and> (get_pipeline env s1 l' = (Inr p', s2) \<and> norm_lang l \<noteq> norm_lang l' \<longrightarrow>
             length (instances (calls s2)) = 2)"
    using one_language [of env l p s1] two_languages [of env l p s1 l' p' s2] by blast
  from a b c pool_inv_init main_loop_keeps [of s env raws] show ?thesis by blast
qed

lemma get_pipeline_A: "get_pipeline stub_env init_state (S ''a'') = (Inr 0, stateA)"
  by (simp add: get_pipeline_init_a stateA_def)

lemma get_pipeline_B: "get_pipeline stub_env stateA (S ''b'') = (Inr 1, stateB)"
  by (simp add: get_pipeline_def stateA_def stateB_def request_simps stub_simps)

lemma norm_lang_spaces: "norm_lang (S '' a '') = norm_lang (S ''a'')" "norm_lang (S ''a'') \<noteq> norm_lang (S ''b'')"
  by (simp_all add: request_simps)

theorem one_engine_per_language_code_witness:
  \<open>get_pipeline stub_env init_state (S ''a'') = (Inr 0, stateA)
   \<and> get_pipeline stub_env stateA (S '' a '') = (Inr 0, stateA)
   \<and> length (instances (calls stateA)) = 1
   \<and> get_pipeline stub_env stateA (S ''b'') = (Inr 1, stateB)
   \<and> length (instances (calls stateB)) = 2
   \<and> pool_inv (init_state :: nat state)
   \<and> pool_inv (main_loop stub_env init_state [line2 @ [10], line2 @ [10], line4 @ [10]])\<close>
proof -
  let ?raws = "[line2 @ [10], line2 @ [10], line4 @ [10]]"
  note t1 = one_engine_per_language_code
    [where ?'e = nat, of init_state stub_env ?raws "S ''a''" 0 stateA "S '' a ''" 1 stateB]
  note t2 = one_engine_per_language_code
    [where ?'e = nat, of init_state stub_env ?raws "S ''a''" 0 stateA "S ''b''" 1 stateB]
  from t1 have i: "pool_inv (init_state :: nat state)" by blast
  with t1 have m: "pool_inv (main_loop stub_env init_state ?raws)" by blast
  from t1 get_pipeline_A norm_lang_spaces(1)
  have a: "get_pipeline stub_env stateA (S '' a '') = (Inr 0, stateA)"
    and b: "length (instances (calls stateA)) = 1" by blast+
  from t2 get_pipeline_A get_pipeline_B norm_lang_spaces(2)
  have c: "length (instances (calls stateB)) = 2" by blast
  from get_pipeline_A get_pipeline_B a b c i m show ?thesis by simp
qed

lemma get_pipeline_failed_how:
  assumes "get_pipeline env s l = (Inl e, s1)"
  shows "(KPipeline2 env (calls s) (norm_lang l) = Inl e \<and> exc_cls e \<noteq> TypeError
          \<and> calls s1 = calls s @ [Construct2 (norm_lang l) (Inl e)])
         \<or> (\<exists>e2. KPipeline2 env (calls s) (norm_lang l) = Inl e2 \<and> exc_cls e2 = TypeError
               \<and> KPipeline1 env (calls s @ [Construct2 (norm_lang l) (Inl e2)]) (norm_lang l) = Inl e
               \<and> calls s1 = calls s @ [Construct2 (norm_lang l) (Inl e2), Construct1 (norm_lang l) (Inl e)])"
  using assms
  by (auto simp: get_pipeline_def Let_def split: option.splits sum.splits if_splits)

lemma get_pipeline_retry:
  assumes "pipelines s1 (norm_lang l) = None"
  shows "\<exists>rest. calls (snd (get_pipeline env s1 l))
           = calls s1 @ Construct2 (norm_lang l) (KPipeline2 env (calls s1) (norm_lang l)) # rest"
  using assms by (simp add: get_pipeline_def Let_def split: sum.splits)

lemma get_pipeline_retry_succeeds:
  assumes "pipelines s1 (norm_lang l) = None" "KPipeline2 env (calls s1) (norm_lang l) = Inr p"
  shows "get_pipeline env s1 l
         = (Inr p, s1\<lparr>calls := calls s1 @ [Construct2 (norm_lang l) (Inr p)],
                      pipelines := (pipelines s1)(norm_lang l \<mapsto> p)\<rparr>)"
  using assms by (simp add: get_pipeline_def Let_def)

lemma synthesize_acquire_fails:
  "get_pipeline env s l = (Inl e, s1) \<Longrightarrow> synthesize env s rid t v l sp = (rid, Raised e, s1)"
  by (simp add: synthesize_def)

text \<open>
  Claim C8. When \<^verbatim>\<open>get_pipeline\<close> raises, the exception is the one the two-argument
  constructor raised, not a \<^verbatim>\<open>TypeError\<close>, or the one the one-argument constructor
  raised after a \<^verbatim>\<open>TypeError\<close> of the first; it reaches the caller, whose request ends
  with it; the cache is as it was, with no entry under the normalised code. The next
  acquisition of that code calls the constructor again, and when that call returns a
  handle the acquisition returns it and stores it.
\<close>

theorem failed_construction_leaves_no_entry:
  "get_pipeline env s l = (Inl e, s1) \<longrightarrow>
     pipelines s1 = pipelines s \<and> pipelines s1 (norm_lang l) = None
     \<and> ((KPipeline2 env (calls s) (norm_lang l) = Inl e \<and> exc_cls e \<noteq> TypeError
          \<and> calls s1 = calls s @ [Construct2 (norm_lang l) (Inl e)])
         \<or> (\<exists>e2. KPipeline2 env (calls s) (norm_lang l) = Inl e2 \<and> exc_cls e2 = TypeError
               \<and> KPipeline1 env (calls s @ [Construct2 (norm_lang l) (Inl e2)]) (norm_lang l) = Inl e
               \<and> calls s1 = calls s @ [Construct2 (norm_lang l) (Inl e2), Construct1 (norm_lang l) (Inl e)]))
     \<and> synthesize env s rid t v l sp = (rid, Raised e, s1)
     \<and> (\<exists>rest. calls (snd (get_pipeline env s1 l))
           = calls s1 @ Construct2 (norm_lang l) (KPipeline2 env (calls s1) (norm_lang l)) # rest)
     \<and> (KPipeline2 env (calls s1) (norm_lang l) = Inr p \<longrightarrow>
          get_pipeline env s1 l
          = (Inr p, s1\<lparr>calls := calls s1 @ [Construct2 (norm_lang l) (Inr p)],
                       pipelines := (pipelines s1)(norm_lang l \<mapsto> p)\<rparr>))"
proof
  assume g: "get_pipeline env s l = (Inl e, s1)"
  note f = get_pipeline_failed [OF g]
  from f have n: "pipelines s1 (norm_lang l) = None" by (rule conjunct2)
  from f get_pipeline_failed_how [OF g] synthesize_acquire_fails [OF g, of rid t v sp]
    get_pipeline_retry [OF n, of env] get_pipeline_retry_succeeds [OF n, of env p]
  show "pipelines s1 = pipelines s \<and> pipelines s1 (norm_lang l) = None
     \<and> ((KPipeline2 env (calls s) (norm_lang l) = Inl e \<and> exc_cls e \<noteq> TypeError
          \<and> calls s1 = calls s @ [Construct2 (norm_lang l) (Inl e)])
         \<or> (\<exists>e2. KPipeline2 env (calls s) (norm_lang l) = Inl e2 \<and> exc_cls e2 = TypeError
               \<and> KPipeline1 env (calls s @ [Construct2 (norm_lang l) (Inl e2)]) (norm_lang l) = Inl e
               \<and> calls s1 = calls s @ [Construct2 (norm_lang l) (Inl e2), Construct1 (norm_lang l) (Inl e)]))
     \<and> synthesize env s rid t v l sp = (rid, Raised e, s1)
     \<and> (\<exists>rest. calls (snd (get_pipeline env s1 l))
           = calls s1 @ Construct2 (norm_lang l) (KPipeline2 env (calls s1) (norm_lang l)) # rest)
     \<and> (KPipeline2 env (calls s1) (norm_lang l) = Inr p \<longrightarrow>
          get_pipeline env s1 l
          = (Inr p, s1\<lparr>calls := calls s1 @ [Construct2 (norm_lang l) (Inr p)],
                       pipelines := (pipelines s1)(norm_lang l \<mapsto> p)\<rparr>))"
    by blast
qed

lemma get_pipeline_F:
  "get_pipeline stub_env init_state (S ''f'') = (Inl (PyExc OtherError (S ''download failed'')), stateF)"
  by (simp add: get_pipeline_def init_state_def stateF_def request_simps stub_simps)

lemma get_pipeline_U:
  "get_pipeline stub_env init_state (S ''u'')
   = (Inl (PyExc OtherError (S ''unsupported language'')),
      \<lparr>pipelines = Map.empty,
       calls = [Construct2 (S ''u'') (Inl (PyExc TypeError
                  (S ''KPipeline.__init__() got an unexpected keyword argument '' @ [39] @ S ''repo_id'' @ [39]))),
                Construct1 (S ''u'') (Inl (PyExc OtherError (S ''unsupported language'')))],
       json_out = []\<rparr>)"
  by (simp add: get_pipeline_def init_state_def request_simps stub_simps)

theorem failed_construction_leaves_no_entry_witness:
  \<open>get_pipeline stub_env init_state (S ''f'')
     = (Inl (PyExc OtherError (S ''download failed'')), stateF)
   \<and> pipelines stateF (S ''f'') = None
   \<and> KPipeline2 stub_env (calls stateF) (norm_lang (S ''f'')) = Inr 1
   \<and> get_pipeline stub_env stateF (S ''f'')
       = (Inr 1, \<lparr>pipelines = [S ''f'' \<mapsto> 1],
                  calls = [Construct2 (S ''f'') (Inl (PyExc OtherError (S ''download failed''))),
                           Construct2 (S ''f'') (Inr 1)],
                  json_out = []\<rparr>)
   \<and> fst (get_pipeline stub_env init_state (S ''u''))
       = Inl (PyExc OtherError (S ''unsupported language''))\<close>
proof -
  let ?e = "PyExc OtherError (S ''download failed'')"
  note t = failed_construction_leaves_no_entry
    [of stub_env init_state "S ''f''" ?e stateF "[]" "[]" "[]" "Finite 1" 1]
  have nl: "norm_lang (S ''f'') = S ''f''" by (simp add: request_simps)
  have k: "KPipeline2 stub_env (calls stateF) (norm_lang (S ''f'')) = Inr 1"
    by (simp add: stateF_def request_simps stub_simps)
  from t get_pipeline_F have n: "pipelines stateF (norm_lang (S ''f'')) = None" by blast
  from t get_pipeline_F k have
    "get_pipeline stub_env stateF (S ''f'')
          = (Inr 1, stateF\<lparr>calls := calls stateF @ [Construct2 (norm_lang (S ''f'')) (Inr 1)],
                       pipelines := (pipelines stateF)(norm_lang (S ''f'') \<mapsto> 1)\<rparr>)"
    by blast
  then have r: "get_pipeline stub_env stateF (S ''f'')
       = (Inr 1, \<lparr>pipelines = [S ''f'' \<mapsto> 1],
                  calls = [Construct2 (S ''f'') (Inl ?e), Construct2 (S ''f'') (Inr 1)],
                  json_out = []\<rparr>)"
    unfolding nl by (simp add: stateF_def)
  from get_pipeline_F n k r get_pipeline_U show ?thesis unfolding nl by simp
qed

section \<open>Falsy fields and coercion to strings\<close>

lemma map_of_without:
  "map_of (filter (\<lambda>kv. fst kv \<noteq> k) d) k' = (if k' = k then None else map_of d k')"
  by (induction d) auto

lemma py_or_falsy: "\<not> truthy v \<Longrightarrow> py_or v dflt = py_or JNull dflt"
  by (simp add: py_or_def)

lemma field_without:
  assumes "map_of d k = Some v" "\<not> truthy v"
  shows "py_or (dict_get (filter (\<lambda>kv. fst kv \<noteq> k) d) k') dflt = py_or (dict_get d k') dflt"
  using assms by (simp add: dict_get_def map_of_without py_or_def)

lemma handle_request_without:
  assumes "map_of d k = Some v" "\<not> truthy v"
  shows "handle_request env s (filter (\<lambda>kv. fst kv \<noteq> k) d) = handle_request env s d"
  unfolding handle_request_def str_field_def field_without [OF assms] ..

lemma str_field_truthy:
  "map_of d k = Some v \<Longrightarrow> truthy v \<Longrightarrow> str_field env d k dflt = py_strip (py_str env v)"
  by (simp add: str_field_def dict_get_def py_or_def)

lemma rid_truthy:
  "map_of d (S ''id'') = Some v \<Longrightarrow> truthy v \<Longrightarrow> fst (handle_request env s d) = py_str env v"
  by (simp add: handle_request_rid dict_get_def py_or_def)

lemma rid_falsy:
  "map_of d (S ''id'') = Some v \<Longrightarrow> \<not> truthy v \<Longrightarrow> fst (handle_request env s d) = []"
  by (simp add: handle_request_rid dict_get_def py_or_def)

lemma handle_request_normalised:
  assumes "py_float env (py_or (dict_get d (S ''speed'')) (JFloat (Finite 1))) = Inr f"
  shows "handle_request env s d
         = (if str_field env d (S ''text'') [] = []
            then (fst (handle_request env s d), Continued,
                  write_response s (success_response (fst (handle_request env s d)) []))
            else synthesize env s (fst (handle_request env s d))
                   (str_field env d (S ''text'') [])
                   (or_default (str_field env d (S ''voice'') (S ''af_heart'')) (S ''af_heart''))
                   (or_default (str_field env d (S ''lang_code'') (S ''a'')) (S ''a''))
                   (clamp_speed f))"
  unfolding handle_request_rid using assms by (simp add: handle_request_def Let_def)

text \<open>
  Claim C10. A field whose value is falsy (null, false, the number 0, the empty string)
  is handled exactly as if the request did not have it: removing it from the dict
  changes neither the response nor the state. So a speed of 0 is the default 1.0 and an
  id of 0, false or null is echoed as the empty string. A value of id, text, voice or
  lang_code that is not falsy goes through \<^verbatim>\<open>str\<close>, whatever its type: the id is
  \<^verbatim>\<open>str\<close> of it, the other three \<^verbatim>\<open>str\<close> of it, stripped; an integer gives its
  digits, \<^verbatim>\<open>true\<close> gives \<^verbatim>\<open>True\<close>. When the speed converts, the request goes on to
  the fast path or to synthesis with these values: none of the four fields rejects it.
\<close>

theorem falsy_fields_take_defaults:
  "(map_of d k = Some v \<and> \<not> truthy v \<longrightarrow>
      handle_request env s (filter (\<lambda>kv. fst kv \<noteq> k) d) = handle_request env s d)
   \<and> \<not> truthy JNull \<and> \<not> truthy (JBool False) \<and> \<not> truthy (JInt 0) \<and> \<not> truthy (JStr [])
   \<and> (\<not> truthy v \<longrightarrow>
        py_float env (py_or v (JFloat (Finite 1))) = Inr (Finite 1)
        \<and> clamp_speed (Finite 1) = Finite 1)
   \<and> (map_of d (S ''id'') = Some v \<and> \<not> truthy v \<longrightarrow> fst (handle_request env s d) = [])
   \<and> (map_of d (S ''id'') = Some v \<and> truthy v \<longrightarrow> fst (handle_request env s d) = py_str env v)
   \<and> (map_of d k = Some v \<and> truthy v \<longrightarrow> str_field env d k dflt = py_strip (py_str env v))
   \<and> py_str env (JInt n) = str_int n \<and> py_str env (JBool True) = S ''True''
   \<and> (py_float env (py_or (dict_get d (S ''speed'')) (JFloat (Finite 1))) = Inr f \<longrightarrow>
        handle_request env s d
        = (if str_field env d (S ''text'') [] = []
           then (fst (handle_request env s d), Continued,
                 write_response s (success_response (fst (handle_request env s d)) []))
           else synthesize env s (fst (handle_request env s d))
                  (str_field env d (S ''text'') [])
                  (or_default (str_field env d (S ''voice'') (S ''af_heart'')) (S ''af_heart''))
                  (or_default (str_field env d (S ''lang_code'') (S ''a'')) (S ''a''))
                  (clamp_speed f)))"
proof -
  have a: "\<not> truthy v \<longrightarrow>
        py_float env (py_or v (JFloat (Finite 1))) = Inr (Finite 1)
        \<and> clamp_speed (Finite 1) = Finite 1"
    by (simp add: py_or_def clamp_speed_Finite)
  have b: "\<not> truthy JNull \<and> \<not> truthy (JBool False) \<and> \<not> truthy (JInt 0) \<and> \<not> truthy (JStr [])"
    by simp
  have c: "py_str env (JInt n) = str_int n \<and> py_str env (JBool True) = S ''True''"
    by simp
  from a b c handle_request_without [of d k v env s] rid_falsy [of d v env s]
    rid_truthy [of d v env s] str_field_truthy [of d k v env dflt]
    handle_request_normalised [of env d f s]
  show ?thesis by blast
qed

lemma strip_line8: "py_strip (line8 @ [10]) = line8"
  by (simp add: py_strip_def py_isspace_def S_def line8_def)

lemma loads_line8:
  "json_loads stub_env line8
   = Inr (JObj [(S ''id'', JInt 0), (S ''text'', JNull), (S ''voice'', JBool False),
                (S ''lang_code'', JStr []), (S ''speed'', JNull)])"
  by (simp add: stub_simps line8_def S_def)

lemma digits7: "str_int 7 = S ''7''"
  by (simp add: str_int_def digits_simps1 S_def)

theorem falsy_fields_take_defaults_witness:
  \<open>map_of [(S ''id'', JInt 0), (S ''text'', JNull), (S ''voice'', JBool False),
            (S ''lang_code'', JStr []), (S ''speed'', JNull)] (S ''id'') = Some (JInt 0)
   \<and> handle_request stub_env init_state
        [(S ''text'', JNull), (S ''voice'', JBool False), (S ''lang_code'', JStr []), (S ''speed'', JNull)]
       = handle_request stub_env init_state
           [(S ''id'', JInt 0), (S ''text'', JNull), (S ''voice'', JBool False),
            (S ''lang_code'', JStr []), (S ''speed'', JNull)]
   \<and> process_line stub_env init_state (line8 @ [10])
       = write_response init_state (success_response [] [])
   \<and> map_of [(S ''id'', JInt 7), (S ''text'', JStr (S ''hi'')), (S ''speed'', JInt 0)] (S ''id'')
       = Some (JInt 7)
   \<and> fst (handle_request stub_env init_state
             [(S ''id'', JInt 7), (S ''text'', JStr (S ''hi'')), (S ''speed'', JInt 0)]) = S ''7''\<close>
proof -
  let ?d8 = "[(S ''id'', JInt 0), (S ''text'', JNull), (S ''voice'', JBool False),
            (S ''lang_code'', JStr []), (S ''speed'', JNull)]"
  let ?d7 = "[(S ''id'', JInt 7), (S ''text'', JStr (S ''hi'')), (S ''speed'', JInt 0)]"
  note t8 = falsy_fields_take_defaults [of ?d8 "S ''id''" "JInt 0" stub_env init_state "[]" 7 "Finite 1"]
  note t7 = falsy_fields_take_defaults [of ?d7 "S ''id''" "JInt 7" stub_env init_state "[]" 7 "Finite 1"]
  have m8: "map_of ?d8 (S ''id'') = Some (JInt 0)" by (simp add: S_def)
  have m7: "map_of ?d7 (S ''id'') = Some (JInt 7)" by (simp add: S_def)
  have f8: "filter (\<lambda>kv. fst kv \<noteq> S ''id'') ?d8
            = [(S ''text'', JNull), (S ''voice'', JBool False), (S ''lang_code'', JStr []), (S ''speed'', JNull)]"
    by (simp add: S_def)
  have nt: "\<not> truthy (JInt 0)" "truthy (JInt 7)" by simp_all
  from t8 m8 nt(1) have a: "handle_request stub_env init_state (filter (\<lambda>kv. fst kv \<noteq> S ''id'') ?d8)
        = handle_request stub_env init_state ?d8"
    by blast
  from t8 m8 nt(1) have r8: "fst (handle_request stub_env init_state ?d8) = []" by blast
  have sp: "py_float stub_env (py_or (dict_get ?d8 (S ''speed'')) (JFloat (Finite 1))) = Inr (Finite 1)"
    by (simp add: request_simps)
  have tx: "str_field stub_env ?d8 (S ''text'') [] = []" by (simp add: request_simps)
  from t8 sp have "handle_request stub_env init_state ?d8
        = (if str_field stub_env ?d8 (S ''text'') [] = []
           then (fst (handle_request stub_env init_state ?d8), Continued,
                 write_response init_state (success_response (fst (handle_request stub_env init_state ?d8)) []))
           else synthesize stub_env init_state (fst (handle_request stub_env init_state ?d8))
                  (str_field stub_env ?d8 (S ''text'') [])
                  (or_default (str_field stub_env ?d8 (S ''voice'') (S ''af_heart'')) (S ''af_heart''))
                  (or_default (str_field stub_env ?d8 (S ''lang_code'') (S ''a'')) (S ''a''))
                  (clamp_speed (Finite 1)))"
    by blast
  then have h8: "handle_request stub_env init_state ?d8
        = ([], Continued, write_response init_state (success_response [] []))"
    unfolding tx r8 by simp
  have n8: "line8 \<noteq> []" by (simp add: line8_def S_def)
  have p8: "process_line stub_env init_state (line8 @ [10])
       = write_response init_state (success_response [] [])"
    using n8 by (simp add: process_line_def strip_line8 try_body_def loads_line8 h8)
  from t7 m7 nt(2) have "fst (handle_request stub_env init_state ?d7) = py_str stub_env (JInt 7)"
    by blast
  then have r7: "fst (handle_request stub_env init_state ?d7) = S ''7''" by (simp add: digits7)
  from m8 a [unfolded f8] p8 m7 r7 show ?thesis by simp
qed

end
